theory Spec2Isabelle
  imports Complex_Main "HOL-Library.AList" "HOL-Library.Sublist"
begin

section \<open>JavaScript values, objects and strings\<close>

text \<open>
  The program is JavaScript: a background script (\<^verbatim>\<open>coreBackgroundManager.js\<close>) and a content
  script. Deal records, settings and listings are plain objects whose property values are
  primitives. A string is the sequence of its Unicode code points (strings are well
  formed: no unpaired surrogate); a number is a rational (the rounding of a product to a
  double is a parameter where the script multiplies), and NaN is \<open>None\<close> where it can
  arise.
\<close>

type_synonym jsstring = "nat list"

datatype jsval = Undefined | Null | Bool bool | Num rat | Text jsstring

text \<open>
  A string written in the source: \<open>lit\<close> gives the code points of a literal, and \<open>Str\<close> the
  string value with those code points.
\<close>

definition lit :: "string \<Rightarrow> jsstring" where
  "lit s = map of_char s"

definition Str :: "string \<Rightarrow> jsval" where
  "Str s = Text (lit s)"

type_synonym obj = "(string \<times> jsval) list"

text \<open>\<^verbatim>\<open>o.k\<close>: a property that is absent reads \<^verbatim>\<open>undefined\<close>.\<close>

definition getProp :: "obj \<Rightarrow> string \<Rightarrow> jsval" where
  "getProp ob k = (case map_of ob k of None \<Rightarrow> Undefined | Some v \<Rightarrow> v)"

text \<open>
  \<^verbatim>\<open>{...o, k: v}\<close>: the property keeps its place when \<^verbatim>\<open>o\<close> has it and is appended otherwise.
\<close>

definition setProp :: "obj \<Rightarrow> string \<Rightarrow> jsval \<Rightarrow> obj" where
  "setProp ob k v = AList.update k v ob"

text \<open>\<^verbatim>\<open>{...a, ...b}\<close>: the properties of \<^verbatim>\<open>b\<close> are written over \<^verbatim>\<open>a\<close>, one after another.\<close>

definition spread :: "obj \<Rightarrow> obj \<Rightarrow> obj" where
  "spread a b = foldl (\<lambda>acc kv. setProp acc (fst kv) (snd kv)) a b"

text \<open>Truthiness of a value in a condition (\<^verbatim>\<open>if (v)\<close>, \<^verbatim>\<open>!v\<close>, \<^verbatim>\<open>a && b\<close>).\<close>

fun truthy :: "jsval \<Rightarrow> bool" where
  "truthy Undefined = False"
| "truthy Null = False"
| "truthy (Bool b) = b"
| "truthy (Num r) = (r \<noteq> 0)"
| "truthy (Text s) = (s \<noteq> [])"

text \<open>
  ToNumber of a primitive (the \<^verbatim>\<open>*\<close> operator applies it); the numeric reading of a string is
  the engine's and is a parameter. \<open>None\<close> is NaN.
\<close>

fun toNumber :: "(jsstring \<Rightarrow> rat option) \<Rightarrow> jsval \<Rightarrow> rat option" where
  "toNumber sn Undefined = None"
| "toNumber sn Null = Some 0"
| "toNumber sn (Bool b) = Some (if b then 1 else 0)"
| "toNumber sn (Num r) = Some r"
| "toNumber sn (Text s) = sn s"

text \<open>ToString of a primitive, as a template literal applies it; number formatting is a parameter.\<close>

fun toStringJs :: "(rat \<Rightarrow> jsstring) \<Rightarrow> jsval \<Rightarrow> jsstring" where
  "toStringJs ns Undefined = lit ''undefined''"
| "toStringJs ns Null = lit ''null''"
| "toStringJs ns (Bool b) = (if b then lit ''true'' else lit ''false'')"
| "toStringJs ns (Num r) = ns r"
| "toStringJs ns (Text s) = s"

subsection \<open>Lower-casing\<close>

text \<open>
  \<^verbatim>\<open>String.prototype.toLowerCase\<close> is the Unicode default lower-case conversion. For ASCII it
  maps \<^verbatim>\<open>A\<close>..\<^verbatim>\<open>Z\<close> to \<^verbatim>\<open>a\<close>..\<^verbatim>\<open>z\<close> and nothing else; beyond ASCII the engine's Unicode
  tables decide and are parameters: the lower-case mapping of a code point (one or more
  code points) and the properties Cased and Case_Ignorable.
\<close>

record unicode =
  lowerMapping :: "nat \<Rightarrow> jsstring"
  cased :: "nat \<Rightarrow> bool"
  caseIgnorable :: "nat \<Rightarrow> bool"

definition lowerOf :: "unicode \<Rightarrow> nat \<Rightarrow> jsstring" where
  "lowerOf u c =
     (if 65 \<le> c \<and> c \<le> 90 then [c + 32] else if c < 128 then [c] else lowerMapping u c)"

text \<open>
  The one mapping that depends on the context: the Greek capital sigma (U+03A3) becomes
  the final small sigma (U+03C2) when a cased letter and then any number of case-ignorable
  characters stand before it and no such sequence in the other order stands after it
  (the condition Final_Sigma), and the small sigma (U+03C3) otherwise.
\<close>

definition capitalSigma :: nat where
  "capitalSigma = 931"

definition finalSmallSigma :: nat where
  "finalSmallSigma = 962"

definition smallSigma :: nat where
  "smallSigma = 963"

text \<open>
  The two properties on ASCII: the letters are cased; the apostrophe, the full stop, the
  colon, the circumflex and the grave accent are case-ignorable.
\<close>

definition isCased :: "unicode \<Rightarrow> nat \<Rightarrow> bool" where
  "isCased u c =
     (if c < 128 then (65 \<le> c \<and> c \<le> 90) \<or> (97 \<le> c \<and> c \<le> 122) else cased u c)"

definition isCaseIgnorable :: "unicode \<Rightarrow> nat \<Rightarrow> bool" where
  "isCaseIgnorable u c = (if c < 128 then c \<in> {39, 46, 58, 94, 96} else caseIgnorable u c)"

text \<open>Zero or more case-ignorable characters and then a cased letter, read from the left.\<close>

fun reachesCased :: "unicode \<Rightarrow> jsstring \<Rightarrow> bool" where
  "reachesCased u [] = False"
| "reachesCased u (c # cs) = (isCased u c \<or> (isCaseIgnorable u c \<and> reachesCased u cs))"

text \<open>
  Lower-casing the rest of a string; \<open>seen\<close> holds the characters already passed, the
  nearest first.
\<close>

fun lowerFrom :: "unicode \<Rightarrow> jsstring \<Rightarrow> jsstring \<Rightarrow> jsstring" where
  "lowerFrom u seen [] = []"
| "lowerFrom u seen (c # cs) =
     (if c = capitalSigma
      then [if reachesCased u seen \<and> \<not> reachesCased u cs then finalSmallSigma else smallSigma]
      else lowerOf u c)
     @ lowerFrom u (c # seen) cs"

definition toLowerCase :: "unicode \<Rightarrow> jsstring \<Rightarrow> jsstring" where
  "toLowerCase u s = lowerFrom u [] s"

text \<open>\<^verbatim>\<open>s.startsWith(t)\<close> and \<^verbatim>\<open>s.includes(t)\<close>, by scanning \<^verbatim>\<open>s\<close> from the left.\<close>

fun startsWith :: "jsstring \<Rightarrow> jsstring \<Rightarrow> bool" where
  "startsWith s [] = True"
| "startsWith [] (y # t) = False"
| "startsWith (x # s) (y # t) = (x = y \<and> startsWith s t)"

fun includesStr :: "jsstring \<Rightarrow> jsstring \<Rightarrow> bool" where
  "includesStr [] t = (t = [])"
| "includesStr (x # s) t = (startsWith (x # s) t \<or> includesStr s t)"

text \<open>
  \<^verbatim>\<open>s.trim()\<close> strips white space and line terminators: tab, line feed, vertical tab, form
  feed, carriage return, space, no-break space, the Unicode space separators, the line
  and paragraph separators and the byte order mark.
\<close>

definition isSpace :: "nat \<Rightarrow> bool" where
  "isSpace c =
     (c \<in> {9, 10, 11, 12, 13, 32, 160, 5760, 8232, 8233, 8239, 8287, 12288, 65279}
      \<or> (8192 \<le> c \<and> c \<le> 8202))"

definition trim :: "jsstring \<Rightarrow> jsstring" where
  "trim s = rev (dropWhile isSpace (rev (dropWhile isSpace s)))"

section \<open>Date Resolver: the relative keywords of \<^verbatim>\<open>parseExpiryDate\<close>\<close>

text \<open>
  What a JavaScript \<^verbatim>\<open>throw\<close> carries: an \<^verbatim>\<open>Error\<close> with its message, or the engine's
  \<^verbatim>\<open>TypeError\<close> (a property read on \<^verbatim>\<open>null\<close> or \<^verbatim>\<open>undefined\<close>, a call of a method the value
  does not have) or \<^verbatim>\<open>RangeError\<close> (\<^verbatim>\<open>toISOString\<close> of an Invalid Date).
\<close>

datatype error = Error jsstring | TypeError | RangeError

text \<open>
  A \<^verbatim>\<open>Date\<close> holds a time value, milliseconds since the epoch, or NaN (\<open>None\<close>, the Invalid
  Date); TimeClip turns a time value beyond 8.64e15 milliseconds either side of the epoch
  into NaN.
\<close>

definition msPerDay :: int where
  "msPerDay = 86400000"

definition msPerHour :: int where
  "msPerHour = 3600000"

definition maxTime :: int where
  "maxTime = 8640000000000000"

definition clipTime :: "int \<Rightarrow> int option" where
  "clipTime t = (if \<bar>t\<bar> \<le> maxTime then Some t else None)"

text \<open>
  Local time is the engine's and the host's. The zone is modelled with one change of its
  offset: \<open>offsetBefore\<close> applies to the instants before \<open>changeAt\<close> and \<open>offsetAfter\<close> from
  then on (offsets in milliseconds east of UTC; equal offsets give a zone without a
  change). LocalTime adds the offset in force at the instant. UTC reads a local time with
  the offset in force at it; a local time that the change repeats or skips is read with
  the offset before the change, as ECMAScript prescribes. The resolver consults the zone
  only between the call and the end of the next day, a span in which a zone changes its
  offset at most once.
\<close>

record zone =
  offsetBefore :: int
  offsetAfter :: int
  changeAt :: int

definition utcOffsetAt :: "zone \<Rightarrow> int \<Rightarrow> int" where
  "utcOffsetAt z t = (if t < changeAt z then offsetBefore z else offsetAfter z)"

definition localOffsetAt :: "zone \<Rightarrow> int \<Rightarrow> int" where
  "localOffsetAt z wall =
     (if wall - offsetBefore z < changeAt z then offsetBefore z
      else if changeAt z \<le> wall - offsetAfter z then offsetAfter z
      else offsetBefore z)"

definition localTime :: "zone \<Rightarrow> int \<Rightarrow> int" where
  "localTime z t = t + utcOffsetAt z t"

definition utcTime :: "zone \<Rightarrow> int \<Rightarrow> int" where
  "utcTime z wall = wall - localOffsetAt z wall"

text \<open>
  \<^verbatim>\<open>date.setDate(date.getDate() + n)\<close>: the same local time of day, \<open>n\<close> calendar days on.
\<close>

definition setDatePlus :: "zone \<Rightarrow> int \<Rightarrow> int option \<Rightarrow> int option" where
  "setDatePlus z n tv =
     (case tv of
        None \<Rightarrow> None
      | Some t \<Rightarrow> clipTime (utcTime z (localTime z t + n * msPerDay)))"

text \<open>\<^verbatim>\<open>date.setHours(23, 59, 59, 999)\<close>: the last millisecond of the local calendar day.\<close>

definition setHoursEndOfDay :: "zone \<Rightarrow> int option \<Rightarrow> int option" where
  "setHoursEndOfDay z tv =
     (case tv of
        None \<Rightarrow> None
      | Some t \<Rightarrow>
          clipTime (utcTime z ((localTime z t div msPerDay) * msPerDay
                               + (23 * msPerHour + 59 * 60000 + 59 * 1000 + 999))))"

text \<open>\<^verbatim>\<open>date.toISOString()\<close>: the time value rendered in UTC, or a \<^verbatim>\<open>RangeError\<close>.\<close>

definition toISOString :: "int option \<Rightarrow> error + int option" where
  "toISOString tv = (case tv of None \<Rightarrow> Inl RangeError | Some t \<Rightarrow> Inr (Some t))"

text \<open>The local time of day of a time value, in milliseconds after local midnight.\<close>

definition localTimeOfDay :: "zone \<Rightarrow> int \<Rightarrow> int" where
  "localTimeOfDay z t = localTime z t mod msPerDay"

text \<open>
  \<^verbatim>\<open>parseExpiryDate(dateString)\<close> called when the clock reads \<open>today\<close> (\<^verbatim>\<open>new Date()\<close>, a valid
  time value). The result is the time value of the ISO string the source returns, \<open>None\<close>
  for \<^verbatim>\<open>null\<close>, or the error thrown. The stages after the two keywords (relative patterns,
  absolute dates, the generic parse) are regular-expression matching and are the
  parameter \<open>laterStages\<close>, given the cleaned string and the clock.
\<close>

definition parseExpiryDate ::
    "unicode \<Rightarrow> zone \<Rightarrow> (jsstring \<Rightarrow> int \<Rightarrow> error + int option) \<Rightarrow> int \<Rightarrow> jsval
     \<Rightarrow> error + int option" where
  "parseExpiryDate u z laterStages today dateString =
     (case dateString of
        Text s \<Rightarrow>
          if s = [] then Inr None
          else
            (let cleanedDateString = toLowerCase u (trim s) in
             if includesStr cleanedDateString (lit ''tonight'') then
               toISOString (setHoursEndOfDay z (Some today))
             else if includesStr cleanedDateString (lit ''tomorrow'') then
               toISOString (setHoursEndOfDay z (setDatePlus z 1 (Some today)))
             else laterStages cleanedDateString today)
      | _ \<Rightarrow> Inr None)"

text \<open>
  A change that moves the clocks forward skips the local times from
  \<open>changeAt + offsetBefore\<close> up to \<open>changeAt + offsetAfter\<close>. It skips the last millisecond
  of a day when the first such millisecond at or after the start of the gap lies in the
  gap.
\<close>

definition skipsEndOfDay :: "zone \<Rightarrow> bool" where
  "skipsEndOfDay z =
     ((msPerDay - 1 - (changeAt z + offsetBefore z)) mod msPerDay
        < offsetAfter z - offsetBefore z)"

text \<open>A later stage that recognises nothing.\<close>

definition noLaterStages :: "jsstring \<Rightarrow> int \<Rightarrow> error + int option" where
  "noLaterStages s t = Inr None"

section \<open>Collaborators, state and effects of the background script\<close>

text \<open>
  The calls the background script makes on its collaborators (\<^verbatim>\<open>storage\<close>, \<^verbatim>\<open>notifier\<close>,
  \<^verbatim>\<open>chrome.alarms\<close>, \<^verbatim>\<open>fetch\<close>) and the \<^verbatim>\<open>console.error\<close> of its \<^verbatim>\<open>catch\<close> blocks.
  Informational \<^verbatim>\<open>console.log\<close> and \<^verbatim>\<open>console.warn\<close> output is not modelled.
\<close>

datatype event =
    GetSettings
  | GetDealsByStatus string
  | GetDealById jsval
  | AddDeal obj
  | UpdateDealStatus jsval string
  | UpdateDeal jsval obj
  | DeleteDeal jsval
  | ShowExpiryWarning obj
  | ShowRestockAlert obj obj
  | ShowSaveConfirmation jsval
  | CreateAlarm string jsval
  | Fetch jsval
  | ConsoleError obj error

text \<open>
  The parsed JSON body of a listing response, by the shape the source looks at: an object
  whose \<^verbatim>\<open>deals\<close> property is an array of listings; an object whose \<^verbatim>\<open>deals\<close> property is
  truthy, is not an array, has a positive \<^verbatim>\<open>length\<close> and cannot be iterated (such as
  \<^verbatim>\<open>{deals: {length: 1}}\<close>); an array of listings; and any other body, from which no
  candidate comes.
\<close>

datatype payload =
    DealsProperty "obj list"
  | DealsNotIterable
  | JsonArray "obj list"
  | OtherJson

text \<open>
  What \<^verbatim>\<open>fetchCurrentAppSumoDealsFromServer\<close> hands to its caller: an array of listings, or
  the value with a positive length that \<^verbatim>\<open>for...of\<close> cannot iterate.
\<close>

datatype fetched = Candidates "obj list" | NotIterable

record response =
  ok :: bool
  json :: "payload option"

text \<open>
  The environment of a run. \<open>throws\<close> says which collaborator calls reject, and with what;
  \<open>casing\<close> holds the engine's Unicode tables; \<open>roundToDouble\<close> is the rounding of an exact
  product to the nearest double; \<open>dateParse\<close> is the engine's \<^verbatim>\<open>Date\<close> parsing of a string
  (\<open>None\<close>: Invalid Date); \<open>stringToNumber\<close> and \<open>numberToString\<close> are its conversions
  between strings and numbers; \<open>DateTimeHelper\<close> and \<open>StringSimilarityScorer\<close> are \<open>None\<close>
  when the global is undefined (\<^verbatim>\<open>typeof X === 'undefined'\<close>), and answer \<open>Inl\<close> when the
  call throws; \<open>fetch\<close> answers \<open>None\<close> when the request rejects.
\<close>

record env =
  throws :: "event \<Rightarrow> error option"
  casing :: unicode
  roundToDouble :: "rat \<Rightarrow> rat"
  dateParse :: "jsstring \<Rightarrow> int option"
  stringToNumber :: "jsstring \<Rightarrow> rat option"
  numberToString :: "rat \<Rightarrow> jsstring"
  DateTimeHelper :: "(int \<Rightarrow> int \<Rightarrow> rat option \<Rightarrow> error + bool) option"
  StringSimilarityScorer :: "(jsval \<Rightarrow> jsval \<Rightarrow> jsval \<Rightarrow> error + bool) option"
  fetch :: "jsval \<Rightarrow> response option"

text \<open>
  The state the script works on: the stored deal records and the persisted settings (both
  behind \<^verbatim>\<open>storage\<close>), the global \<^verbatim>\<open>currentConfig\<close>, the browser's alarms, and the effects
  performed so far, in order.
\<close>

record state =
  store :: "obj list"
  settings :: "obj option"
  currentConfig :: obj
  alarms :: "(string \<times> jsval) list"
  trace :: "event list"

text \<open>
  Modelled from the spec: \<^verbatim>\<open>StorageManager\<close> is not among the sources. Section 6 gives its
  contract (\<^verbatim>\<open>getDealsByStatus(status) -> list<Deal>\<close>, \<^verbatim>\<open>getDealById(id) -> Deal|null\<close>,
  \<^verbatim>\<open>addDeal(Deal)\<close>, \<^verbatim>\<open>updateDealStatus(id, status)\<close>, \<^verbatim>\<open>updateDeal(id, partialFields)\<close>,
  \<^verbatim>\<open>deleteDeal(id)\<close>) and section 5 says that a status transition is a single write keyed
  by deal id.
\<close>

definition getDealsByStatus :: "string \<Rightarrow> obj list \<Rightarrow> obj list" where
  "getDealsByStatus status deals = filter (\<lambda>d. getProp d ''status'' = Str status) deals"

definition getDealById :: "jsval \<Rightarrow> obj list \<Rightarrow> obj option" where
  "getDealById dealId deals = find (\<lambda>d. getProp d ''id'' = dealId) deals"

definition addDeal :: "obj \<Rightarrow> obj list \<Rightarrow> obj list" where
  "addDeal deal deals = deals @ [deal]"

definition updateDealStatus :: "jsval \<Rightarrow> string \<Rightarrow> obj list \<Rightarrow> obj list" where
  "updateDealStatus dealId status deals =
     map (\<lambda>d. if getProp d ''id'' = dealId then setProp d ''status'' (Str status) else d) deals"

definition updateDeal :: "jsval \<Rightarrow> obj \<Rightarrow> obj list \<Rightarrow> obj list" where
  "updateDeal dealId partialFields deals =
     map (\<lambda>d. if getProp d ''id'' = dealId then spread d partialFields else d) deals"

definition deleteDeal :: "jsval \<Rightarrow> obj list \<Rightarrow> obj list" where
  "deleteDeal dealId deals = filter (\<lambda>d. getProp d ''id'' \<noteq> dealId) deals"

text \<open>
  What a completed call changes: the storage writes change the store, and
  \<^verbatim>\<open>chrome.alarms.create\<close> replaces the alarm of that name.
\<close>

fun effect :: "event \<Rightarrow> state \<Rightarrow> state" where
  "effect (AddDeal deal) s = s\<lparr>store := addDeal deal (store s)\<rparr>"
| "effect (UpdateDealStatus dealId status) s =
     s\<lparr>store := updateDealStatus dealId status (store s)\<rparr>"
| "effect (UpdateDeal dealId partialFields) s =
     s\<lparr>store := updateDeal dealId partialFields (store s)\<rparr>"
| "effect (DeleteDeal dealId) s = s\<lparr>store := deleteDeal dealId (store s)\<rparr>"
| "effect (CreateAlarm name period) s = s\<lparr>alarms := AList.update name period (alarms s)\<rparr>"
| "effect ev s = s"

text \<open>
  A collaborator call: it throws and changes nothing, or it completes, takes effect and is
  recorded.
\<close>

definition perform :: "env \<Rightarrow> event \<Rightarrow> state \<Rightarrow> (error + unit) \<times> state" where
  "perform env ev s =
     (case throws env ev of
        Some e \<Rightarrow> (Inl e, s)
      | None \<Rightarrow> (Inr (), (effect ev s)\<lparr>trace := trace (effect ev s) @ [ev]\<rparr>))"

text \<open>The \<^verbatim>\<open>console.error\<close> of a \<^verbatim>\<open>catch\<close> block.\<close>

definition consoleError :: "obj \<Rightarrow> error \<Rightarrow> state \<Rightarrow> state" where
  "consoleError deal e s = s\<lparr>trace := trace s @ [ConsoleError deal e]\<rparr>"

section \<open>Configuration management\<close>

definition EXPIRY_ALARM_NAME :: string where
  "EXPIRY_ALARM_NAME = ''expiryCheckAlarm''"

definition RESTOCK_ALARM_NAME :: string where
  "RESTOCK_ALARM_NAME = ''restockCheckAlarm''"

definition DEFAULT_APP_CONFIG :: obj where
  "DEFAULT_APP_CONFIG =
     [(''expiryCheckPeriodInMinutes'', Num 60),
      (''restockCheckPeriodInMinutes'', Num 240),
      (''restockApiEndpoint'', Str ''https://api.appsumo.com/v1/deals/active''),
      (''expiryWarningLeadTimeHours'', Num 48),
      (''similarityThreshold'', Num (4 / 5))]"

text \<open>\<^verbatim>\<open>Object.keys(o)\<close>.\<close>

definition objectKeys :: "obj \<Rightarrow> string list" where
  "objectKeys ob = map fst ob"

text \<open>
  \<^verbatim>\<open>loadAndApplyConfig()\<close>: \<^verbatim>\<open>storage.getSettings()\<close> rejects, or resolves to the persisted
  settings (\<open>None\<close>: \<^verbatim>\<open>undefined\<close> or \<^verbatim>\<open>null\<close>); then both alarms are created.
\<close>

definition loadAndApplyConfig :: "env \<Rightarrow> state \<Rightarrow> (error + unit) \<times> state" where
  "loadAndApplyConfig env s =
     (let s1 =
        (case throws env GetSettings of
           Some e \<Rightarrow> s\<lparr>currentConfig := DEFAULT_APP_CONFIG\<rparr>
         | None \<Rightarrow>
             (case settings s of
                Some userSettings \<Rightarrow>
                  if length (objectKeys userSettings) > 0
                  then s\<lparr>currentConfig := spread DEFAULT_APP_CONFIG userSettings\<rparr>
                  else s\<lparr>currentConfig := DEFAULT_APP_CONFIG\<rparr>
              | None \<Rightarrow> s\<lparr>currentConfig := DEFAULT_APP_CONFIG\<rparr>))
      in case perform env (CreateAlarm EXPIRY_ALARM_NAME
                (getProp (currentConfig s1) ''expiryCheckPeriodInMinutes'')) s1 of
           (Inl e, s2) \<Rightarrow> (Inl e, s2)
         | (Inr u, s2) \<Rightarrow>
             perform env (CreateAlarm RESTOCK_ALARM_NAME
               (getProp (currentConfig s2) ''restockCheckPeriodInMinutes'')) s2)"

section \<open>Message handlers that write to storage\<close>

record reply =
  success :: bool
  message :: jsstring
  deal :: "obj option"

text \<open>The double quote inside a template literal.\<close>

definition dq :: jsstring where
  "dq = [34]"

text \<open>
  \<^verbatim>\<open>handleSaveDeal(dealData)\<close>; \<open>savedDate\<close> is \<^verbatim>\<open>new Date().toISOString()\<close>, the clock at the
  call, and \<open>None\<close> is a \<^verbatim>\<open>dealData\<close> that is \<^verbatim>\<open>undefined\<close> or \<^verbatim>\<open>null\<close>.
\<close>

definition handleSaveDeal ::
    "env \<Rightarrow> string \<Rightarrow> obj option \<Rightarrow> state \<Rightarrow> (error + reply) \<times> state" where
  "handleSaveDeal env savedDate dealData s =
     (case dealData of
        None \<Rightarrow> (Inl (Error (lit ''Invalid deal data: id, title, and url are required.'')), s)
      | Some dd \<Rightarrow>
          if \<not> truthy (getProp dd ''id'') \<or> \<not> truthy (getProp dd ''title'')
             \<or> \<not> truthy (getProp dd ''url'')
          then (Inl (Error (lit ''Invalid deal data: id, title, and url are required.'')), s)
          else
            (let dealToSave =
               setProp (setProp dd ''dateSaved'' (Str savedDate)) ''status'' (Str ''watching'')
             in case perform env (AddDeal dealToSave) s of
                  (Inl e, s1) \<Rightarrow> (Inl e, s1)
                | (Inr u, s1) \<Rightarrow>
                    (case perform env (ShowSaveConfirmation (getProp dealToSave ''title'')) s1 of
                       (Inl e, s2) \<Rightarrow> (Inl e, s2)
                     | (Inr u, s2) \<Rightarrow>
                         (Inr \<lparr>success = True, message = lit ''Deal saved successfully!'',
                               deal = Some dealToSave\<rparr>, s2))))"

text \<open>\<^verbatim>\<open>handleMarkAsMissed(dealId)\<close>.\<close>

definition handleMarkAsMissed :: "env \<Rightarrow> jsval \<Rightarrow> state \<Rightarrow> (error + reply) \<times> state" where
  "handleMarkAsMissed env dealId s =
     (if \<not> truthy dealId then (Inl (Error (lit ''Deal ID is required to mark as missed.'')), s)
      else
        (case throws env (GetDealById dealId) of
           Some e \<Rightarrow> (Inl e, s)
         | None \<Rightarrow>
             (case getDealById dealId (store s) of
                None \<Rightarrow>
                  (Inl (Error (lit ''Deal with ID '' @ toStringJs (numberToString env) dealId
                               @ lit '' not found.'')), s)
              | Some d \<Rightarrow>
                  (case perform env (UpdateDealStatus dealId ''missed'') s of
                     (Inl e, s1) \<Rightarrow> (Inl e, s1)
                   | (Inr u, s1) \<Rightarrow>
                       (Inr \<lparr>success = True,
                             message = lit ''Deal '' @ dq
                               @ toStringJs (numberToString env) (getProp d ''title'')
                               @ dq @ lit '' marked as missed.'',
                             deal = None\<rparr>, s1)))))"

text \<open>\<^verbatim>\<open>handleDeleteDeal(dealId)\<close>.\<close>

definition handleDeleteDeal :: "env \<Rightarrow> jsval \<Rightarrow> state \<Rightarrow> (error + reply) \<times> state" where
  "handleDeleteDeal env dealId s =
     (if \<not> truthy dealId then (Inl (Error (lit ''Deal ID is required to delete a deal.'')), s)
      else
        (case perform env (DeleteDeal dealId) s of
           (Inl e, s1) \<Rightarrow> (Inl e, s1)
         | (Inr u, s1) \<Rightarrow>
             (Inr \<lparr>success = True, message = lit ''Deal deleted successfully.'', deal = None\<rparr>, s1)))"

text \<open>\<^verbatim>\<open>handleUpdateDealNotes(dealId, notes)\<close>; \<^verbatim>\<open>typeof notes !== 'string'\<close> refuses all but a string.\<close>

definition handleUpdateDealNotes ::
    "env \<Rightarrow> jsval \<Rightarrow> jsval \<Rightarrow> state \<Rightarrow> (error + reply) \<times> state" where
  "handleUpdateDealNotes env dealId notes s =
     (if \<not> truthy dealId then (Inl (Error (lit ''Deal ID is required to update notes.'')), s)
      else
        (case notes of
           Text t \<Rightarrow>
             (case perform env (UpdateDeal dealId [(''notes'', notes)]) s of
                (Inl e, s1) \<Rightarrow> (Inl e, s1)
              | (Inr u, s1) \<Rightarrow>
                  (Inr \<lparr>success = True, message = lit ''Deal notes updated.'', deal = None\<rparr>, s1))
         | _ \<Rightarrow> (Inl (Error (lit ''Notes must be a string.'')), s)))"

section \<open>Expiry checks\<close>

text \<open>
  TimeClip of a number, and \<^verbatim>\<open>new Date(v).getTime()\<close> for a primitive \<open>v\<close>: a string is
  parsed, anything else is converted to a number and clipped. \<open>None\<close> is NaN, the Invalid
  Date.
\<close>

definition timeClip :: "rat \<Rightarrow> int option" where
  "timeClip r =
     (if \<bar>r\<bar> \<le> 8640000000000000 then Some (if 0 \<le> r then \<lfloor>r\<rfloor> else \<lceil>r\<rceil>) else None)"

fun newDate :: "(jsstring \<Rightarrow> int option) \<Rightarrow> jsval \<Rightarrow> int option" where
  "newDate parse (Text s) = parse s"
| "newDate parse (Num r) = timeClip r"
| "newDate parse (Bool b) = Some (if b then 1 else 0)"
| "newDate parse Null = Some 0"
| "newDate parse Undefined = None"

text \<open>
  \<^verbatim>\<open>currentConfig.expiryWarningLeadTimeHours * 60 * 60 * 1000\<close>: three multiplications from
  the left, each rounded to a double.
\<close>

definition leadTimeInMs :: "env \<Rightarrow> obj \<Rightarrow> rat option" where
  "leadTimeInMs env cfg =
     map_option
       (\<lambda>h. roundToDouble env (roundToDouble env (roundToDouble env (h * 60) * 60) * 1000))
       (toNumber (stringToNumber env) (getProp cfg ''expiryWarningLeadTimeHours''))"

text \<open>
  \<^verbatim>\<open>(expiry.getTime() - now.getTime()) < leadTimeInMs\<close>; a comparison with NaN is false. The
  difference of two time values is taken exactly (it is, below 2^53 milliseconds).
\<close>

definition withinLeadTime :: "int \<Rightarrow> int \<Rightarrow> rat option \<Rightarrow> bool" where
  "withinLeadTime now expiry lead =
     (case lead of None \<Rightarrow> False | Some l \<Rightarrow> of_int (expiry - now) < l)"

text \<open>
  The \<^verbatim>\<open>try\<close> block of one iteration of \<^verbatim>\<open>performExpiryChecks\<close>, entered when
  \<^verbatim>\<open>deal.expiryDate\<close> is truthy.
\<close>

definition expiryTry ::
    "env \<Rightarrow> rat option \<Rightarrow> int \<Rightarrow> obj \<Rightarrow> state \<Rightarrow> (error + unit) \<times> state" where
  "expiryTry env lead now d s =
     (case newDate (dateParse env) (getProp d ''expiryDate'') of
        None \<Rightarrow> (Inr (), s)
      | Some expiry \<Rightarrow>
          if expiry < now then perform env (UpdateDealStatus (getProp d ''id'') ''missed'') s
          else
            (case DateTimeHelper env of
               Some isImminent \<Rightarrow>
                 (case isImminent now expiry lead of
                    Inl e \<Rightarrow> (Inl e, s)
                  | Inr imminent \<Rightarrow>
                      if imminent then perform env (ShowExpiryWarning d) s else (Inr (), s))
             | None \<Rightarrow>
                 if withinLeadTime now expiry lead then perform env (ShowExpiryWarning d) s
                 else (Inr (), s)))"

text \<open>
  One iteration, on one entry of the array: a record, or \<open>None\<close> for an entry that is \<^verbatim>\<open>null\<close>
  or \<^verbatim>\<open>undefined\<close>. The guard \<^verbatim>\<open>if (deal.expiryDate)\<close> stands before the \<^verbatim>\<open>try\<close>, so on such
  an entry the property read throws a \<^verbatim>\<open>TypeError\<close> that no \<^verbatim>\<open>catch\<close> encloses. On a record
  the guard is followed by the \<^verbatim>\<open>try\<close> block and its \<^verbatim>\<open>catch\<close>, which logs and goes on.
\<close>

definition expiryStep ::
    "env \<Rightarrow> rat option \<Rightarrow> int \<Rightarrow> obj option \<Rightarrow> state \<Rightarrow> (error + unit) \<times> state" where
  "expiryStep env lead now entry s =
     (case entry of
        None \<Rightarrow> (Inl TypeError, s)
      | Some d \<Rightarrow>
          if truthy (getProp d ''expiryDate'') then
            (case expiryTry env lead now d s of
               (Inl e, s1) \<Rightarrow> (Inr (), consoleError d e s1)
             | (Inr u, s1) \<Rightarrow> (Inr (), s1))
          else (Inr (), s))"

text \<open>
  \<^verbatim>\<open>for (const deal of watchingDeals)\<close>: an error that leaves an iteration leaves the loop,
  and the entries after it are not visited.
\<close>

fun expiryLoop ::
    "env \<Rightarrow> rat option \<Rightarrow> int \<Rightarrow> obj option list \<Rightarrow> state \<Rightarrow> (error + unit) \<times> state" where
  "expiryLoop env lead now [] s = (Inr (), s)"
| "expiryLoop env lead now (entry # rest) s =
     (case expiryStep env lead now entry s of
        (Inl e, s1) \<Rightarrow> (Inl e, s1)
      | (Inr u, s1) \<Rightarrow> expiryLoop env lead now rest s1)"

text \<open>
  \<^verbatim>\<open>performExpiryChecks()\<close>, with \<open>now\<close> the clock read after the watched deals were fetched.
  The run is taken on its own: no message handler interleaves with it. The storage read
  resolves to stored records, so every entry of the array the loop receives is a record.
\<close>

definition performExpiryChecks :: "env \<Rightarrow> int \<Rightarrow> state \<Rightarrow> (error + unit) \<times> state" where
  "performExpiryChecks env now s =
     (case throws env (GetDealsByStatus ''watching'') of
        Some e \<Rightarrow> (Inl e, s)
      | None \<Rightarrow>
          expiryLoop env (leadTimeInMs env (currentConfig s)) now
            (map Some (getDealsByStatus ''watching'' (store s))) s)"

section \<open>Restock checks\<close>

text \<open>A network request: the response, or \<open>None\<close> when it rejects; the request is recorded.\<close>

definition request :: "env \<Rightarrow> jsval \<Rightarrow> state \<Rightarrow> response option \<times> state" where
  "request env url s = (fetch env url, s\<lparr>trace := trace s @ [Fetch url]\<rparr>)"

text \<open>\<^verbatim>\<open>checkDealPageActive(dealUrl)\<close>.\<close>

definition checkDealPageActive :: "env \<Rightarrow> jsval \<Rightarrow> state \<Rightarrow> bool \<times> state" where
  "checkDealPageActive env dealUrl s =
     (if \<not> truthy dealUrl then (False, s)
      else
        (case request env dealUrl s of
           (None, s1) \<Rightarrow> (False, s1)
         | (Some r, s1) \<Rightarrow> (if ok r then (True, s1) else (False, s1))))"

text \<open>
  \<^verbatim>\<open>fetchCurrentAppSumoDealsFromServer(apiEndpoint)\<close>; \<^verbatim>\<open>data.deals || (Array.isArray(data) ?
  data : [])\<close> is read off the shape of the body, and a body that fails to parse is \<open>None\<close>.
  A truthy \<^verbatim>\<open>data.deals\<close> is returned whatever it is.
\<close>

definition fetchCurrentAppSumoDealsFromServer ::
    "env \<Rightarrow> jsval \<Rightarrow> state \<Rightarrow> fetched \<times> state" where
  "fetchCurrentAppSumoDealsFromServer env apiEndpoint s =
     (if \<not> truthy apiEndpoint then (Candidates [], s)
      else
        (case request env apiEndpoint s of
           (None, s1) \<Rightarrow> (Candidates [], s1)
         | (Some r, s1) \<Rightarrow>
             if \<not> ok r then (Candidates [], s1)
             else
               (case json r of
                  None \<Rightarrow> (Candidates [], s1)
                | Some (DealsProperty deals) \<Rightarrow> (Candidates deals, s1)
                | Some DealsNotIterable \<Rightarrow> (NotIterable, s1)
                | Some (JsonArray deals) \<Rightarrow> (Candidates deals, s1)
                | Some OtherJson \<Rightarrow> (Candidates [], s1))))"

text \<open>\<^verbatim>\<open>v.toLowerCase()\<close>: only a string has the method.\<close>

fun lowered :: "unicode \<Rightarrow> jsval \<Rightarrow> error + jsstring" where
  "lowered u (Text s) = Inr (toLowerCase u s)"
| "lowered u v = Inl TypeError"

text \<open>
  The similarity decision of the restock check for \<^verbatim>\<open>deal.title\<close> and \<^verbatim>\<open>currentDeal.title\<close>:
  the scorer when the global is defined, otherwise the basic title match.
\<close>

definition isSimilar :: "env \<Rightarrow> jsval \<Rightarrow> jsval \<Rightarrow> jsval \<Rightarrow> error + bool" where
  "isSimilar env dealTitle currentTitle threshold =
     (case StringSimilarityScorer env of
        Some scorer \<Rightarrow> scorer dealTitle currentTitle threshold
      | None \<Rightarrow>
          (case lowered (casing env) dealTitle of
             Inl e \<Rightarrow> Inl e
           | Inr a \<Rightarrow>
               (case lowered (casing env) currentTitle of
                  Inl e \<Rightarrow> Inl e
                | Inr b \<Rightarrow> Inr (a = b \<or> includesStr a b \<or> includesStr b a))))"

text \<open>The second argument of \<^verbatim>\<open>notifier.showRestockAlert\<close> in the two branches.\<close>

definition originalUrlInfo :: "env \<Rightarrow> obj \<Rightarrow> obj" where
  "originalUrlInfo env d =
     setProp (setProp d ''restockType'' (Str ''original_url_active'')) ''notes''
       (Text (lit ''The original page for '' @ dq
              @ toStringJs (numberToString env) (getProp d ''title'')
              @ dq @ lit '' seems to be active again.''))"

definition similarListingInfo :: "env \<Rightarrow> obj \<Rightarrow> obj \<Rightarrow> obj" where
  "similarListingInfo env d currentDeal =
     setProp
       (setProp
          (setProp
             (setProp currentDeal ''originalMissedDealTitle'' (getProp d ''title''))
             ''originalMissedDealId'' (getProp d ''id''))
          ''restockType'' (Str ''similar_new_listing''))
       ''notes''
       (Text (lit ''A similar deal titled '' @ dq
              @ toStringJs (numberToString env) (getProp currentDeal ''title'')
              @ dq @ lit '' is now available. Your missed deal was '' @ dq
              @ toStringJs (numberToString env) (getProp d ''title'') @ dq @ lit ''.''))"

text \<open>
  \<^verbatim>\<open>for (const currentDeal of currentAppSumoDeals)\<close>: a candidate is compared when the deal's
  title and the candidate's title and URL are truthy; the first similar one is notified
  and ends the scan (\<^verbatim>\<open>break\<close>).
\<close>

fun scanListings :: "env \<Rightarrow> obj \<Rightarrow> obj \<Rightarrow> obj list \<Rightarrow> state \<Rightarrow> (error + unit) \<times> state" where
  "scanListings env cfg d [] s = (Inr (), s)"
| "scanListings env cfg d (currentDeal # rest) s =
     (if truthy (getProp d ''title'') \<and> truthy (getProp currentDeal ''title'')
         \<and> truthy (getProp currentDeal ''url'')
      then
        (case isSimilar env (getProp d ''title'') (getProp currentDeal ''title'')
                (getProp cfg ''similarityThreshold'') of
           Inl e \<Rightarrow> (Inl e, s)
         | Inr similar \<Rightarrow>
             if similar
             then perform env (ShowRestockAlert d (similarListingInfo env d currentDeal)) s
             else scanListings env cfg d rest s)
      else scanListings env cfg d rest s)"

text \<open>The \<^verbatim>\<open>try\<close> block of one iteration of \<^verbatim>\<open>performRestockChecks\<close>, on a record.\<close>

definition restockTry :: "env \<Rightarrow> obj \<Rightarrow> obj \<Rightarrow> state \<Rightarrow> (error + unit) \<times> state" where
  "restockTry env cfg d s =
     (case (if truthy (getProp d ''url'') then checkDealPageActive env (getProp d ''url'') s
            else (False, s)) of
        (isOriginalUrlActive, s1) \<Rightarrow>
          if isOriginalUrlActive then
            (case perform env (ShowRestockAlert d (originalUrlInfo env d)) s1 of
               (Inl e, s2) \<Rightarrow> (Inl e, s2)
             | (Inr u, s2) \<Rightarrow> perform env (UpdateDealStatus (getProp d ''id'') ''watching'') s2)
          else
            (case fetchCurrentAppSumoDealsFromServer env
                    (getProp cfg ''restockApiEndpoint'') s1 of
               (Candidates currentAppSumoDeals, s2) \<Rightarrow>
                 if length currentAppSumoDeals > 0
                 then scanListings env cfg d currentAppSumoDeals s2
                 else (Inr (), s2)
             | (NotIterable, s2) \<Rightarrow> (Inl TypeError, s2)))"

text \<open>
  One iteration, on one entry of the array. On an entry that is \<^verbatim>\<open>null\<close> or \<^verbatim>\<open>undefined\<close>
  (\<open>None\<close>) the first statement of the \<^verbatim>\<open>try\<close> block, the read of \<^verbatim>\<open>deal.url\<close>, throws a
  \<^verbatim>\<open>TypeError\<close>; the \<^verbatim>\<open>catch\<close> builds its message from \<^verbatim>\<open>deal.title\<close> and \<^verbatim>\<open>deal.id\<close> and throws
  in turn, with nothing to catch it. On a record the \<^verbatim>\<open>catch\<close> logs and goes on.
\<close>

definition restockStep ::
    "env \<Rightarrow> obj \<Rightarrow> obj option \<Rightarrow> state \<Rightarrow> (error + unit) \<times> state" where
  "restockStep env cfg entry s =
     (case entry of
        None \<Rightarrow> (Inl TypeError, s)
      | Some d \<Rightarrow>
          (case restockTry env cfg d s of
             (Inl e, s1) \<Rightarrow> (Inr (), consoleError d e s1)
           | (Inr u, s1) \<Rightarrow> (Inr (), s1)))"

text \<open>
  \<^verbatim>\<open>for (const deal of missedDeals)\<close>: an error that leaves an iteration leaves the loop.
\<close>

fun restockLoop ::
    "env \<Rightarrow> obj \<Rightarrow> obj option list \<Rightarrow> state \<Rightarrow> (error + unit) \<times> state" where
  "restockLoop env cfg [] s = (Inr (), s)"
| "restockLoop env cfg (entry # rest) s =
     (case restockStep env cfg entry s of
        (Inl e, s1) \<Rightarrow> (Inl e, s1)
      | (Inr u, s1) \<Rightarrow> restockLoop env cfg rest s1)"

text \<open>
  \<^verbatim>\<open>performRestockChecks()\<close>. The run is taken on its own, so the \<^verbatim>\<open>currentConfig\<close> each
  iteration reads is the one the run started with. The storage read resolves to stored
  records.
\<close>

definition performRestockChecks :: "env \<Rightarrow> state \<Rightarrow> (error + unit) \<times> state" where
  "performRestockChecks env s =
     (case throws env (GetDealsByStatus ''missed'') of
        Some e \<Rightarrow> (Inl e, s)
      | None \<Rightarrow>
          restockLoop env (currentConfig s)
            (map Some (getDealsByStatus ''missed'' (store s))) s)"

section \<open>The specification's notions\<close>

text \<open>
  The specification's words for section 4.2, stated on their own. Two characters are the
  same letter when they are equal or have the same lower-case form, the capital sigma
  taken with its plain small form; two titles are equal ignoring case when they are so
  letter by letter; a title is a case-insensitive substring of another when it equals,
  ignoring case, a contiguous part of it.
\<close>

definition letterOf :: "unicode \<Rightarrow> nat \<Rightarrow> jsstring" where
  "letterOf u c = (if c = capitalSigma then [smallSigma] else lowerOf u c)"

definition sameLetter :: "unicode \<Rightarrow> nat \<Rightarrow> nat \<Rightarrow> bool" where
  "sameLetter u c d = (c = d \<or> letterOf u c = letterOf u d)"

definition equalIgnoringCase :: "unicode \<Rightarrow> jsstring \<Rightarrow> jsstring \<Rightarrow> bool" where
  "equalIgnoringCase u a b = list_all2 (sameLetter u) a b"

definition substringIgnoringCase :: "unicode \<Rightarrow> jsstring \<Rightarrow> jsstring \<Rightarrow> bool" where
  "substringIgnoringCase u a b = (\<exists>p m q. b = p @ m @ q \<and> equalIgnoringCase u a m)"

text \<open>
  The answers of the two network helpers on their own, without the record of the request:
  what \<^verbatim>\<open>checkDealPageActive\<close> reports for a URL and the listings that
  \<^verbatim>\<open>fetchCurrentAppSumoDealsFromServer\<close> returns for an endpoint (none when what it returns
  is not an array of listings).
\<close>

definition probeActive :: "env \<Rightarrow> jsval \<Rightarrow> bool" where
  "probeActive env url =
     (truthy url \<and> (case fetch env url of None \<Rightarrow> False | Some r \<Rightarrow> ok r))"

definition currentListings :: "env \<Rightarrow> jsval \<Rightarrow> obj list" where
  "currentListings env apiEndpoint =
     (if \<not> truthy apiEndpoint then []
      else
        (case fetch env apiEndpoint of
           None \<Rightarrow> []
         | Some r \<Rightarrow>
             if \<not> ok r then []
             else
               (case json r of
                  None \<Rightarrow> []
                | Some (DealsProperty deals) \<Rightarrow> deals
                | Some DealsNotIterable \<Rightarrow> []
                | Some (JsonArray deals) \<Rightarrow> deals
                | Some OtherJson \<Rightarrow> [])))"

text \<open>
  Whether what \<^verbatim>\<open>fetchCurrentAppSumoDealsFromServer\<close> returns for an endpoint is the value
  that cannot be iterated.
\<close>

definition listingNotIterable :: "env \<Rightarrow> jsval \<Rightarrow> bool" where
  "listingNotIterable env apiEndpoint =
     (truthy apiEndpoint
      \<and> (case fetch env apiEndpoint of
            None \<Rightarrow> False
          | Some r \<Rightarrow> ok r \<and> json r = Some DealsNotIterable))"

text \<open>
  A candidate listing with a non-empty title and URL, and the similarity decision for a
  missed deal and a candidate at the configured threshold.
\<close>

definition comparable :: "obj \<Rightarrow> bool" where
  "comparable c = (truthy (getProp c ''title'') \<and> truthy (getProp c ''url''))"

definition similarTo :: "env \<Rightarrow> obj \<Rightarrow> obj \<Rightarrow> obj \<Rightarrow> error + bool" where
  "similarTo env cfg d c =
     isSimilar env (getProp d ''title'') (getProp c ''title'') (getProp cfg ''similarityThreshold'')"

text \<open>A restock notification raised for the deal \<open>d\<close>.\<close>

fun alertFor :: "obj \<Rightarrow> event \<Rightarrow> bool" where
  "alertFor d (ShowRestockAlert d' info) = (d' = d)"
| "alertFor d ev = False"

text \<open>
  The status enum of section 3 on a stored record, and the storage writes that respect it:
  a record added with status \<^verbatim>\<open>watching\<close>, a status set to \<^verbatim>\<open>watching\<close> or \<^verbatim>\<open>missed\<close>, a
  partial update that does not name the status. Every other effect writes no record.
\<close>

fun writesEnumStatus :: "event \<Rightarrow> bool" where
  "writesEnumStatus (AddDeal r) = (getProp r ''status'' = Str ''watching'')"
| "writesEnumStatus (UpdateDealStatus i st) = (st = ''watching'' \<or> st = ''missed'')"
| "writesEnumStatus (UpdateDeal i p) = (''status'' \<notin> set (objectKeys p))"
| "writesEnumStatus ev = True"

definition statusInEnum :: "obj \<Rightarrow> bool" where
  "statusInEnum r =
     (getProp r ''status'' = Str ''watching'' \<or> getProp r ''status'' = Str ''missed'')"

section \<open>Runs as sequences of effects\<close>

text \<open>
  The state reached from \<open>s\<close> when the given calls complete one after another. Every
  operation of the script leaves the state in which it started, changed by the calls
  it completed.
\<close>

fun replay :: "event list \<Rightarrow> state \<Rightarrow> state" where
  "replay [] s = s"
| "replay (ev # evs) s = replay evs ((effect ev s)\<lparr>trace := trace (effect ev s) @ [ev]\<rparr>)"

text \<open>
  The effects of one iteration on a record, taken on its own: what the iteration adds to
  the record of effects when it starts from a state in which nothing is stored and
  nothing has happened.
\<close>

definition blank :: state where
  "blank = \<lparr>store = [], settings = None, currentConfig = [], alarms = [], trace = []\<rparr>"

definition expiryEffects :: "env \<Rightarrow> rat option \<Rightarrow> int \<Rightarrow> obj \<Rightarrow> event list" where
  "expiryEffects env lead now d = trace (snd (expiryStep env lead now (Some d) blank))"

definition restockEffects :: "env \<Rightarrow> obj \<Rightarrow> obj \<Rightarrow> event list" where
  "restockEffects env cfg d = trace (snd (restockStep env cfg (Some d) blank))"

text \<open>An effect that leaves the store alone or sets the status of some deal to \<open>v\<close>.\<close>

fun setsStatusOnly :: "string \<Rightarrow> event \<Rightarrow> bool" where
  "setsStatusOnly v (UpdateDealStatus i st) = (st = v)"
| "setsStatusOnly v (AddDeal r) = False"
| "setsStatusOnly v (UpdateDeal i p) = False"
| "setsStatusOnly v (DeleteDeal i) = False"
| "setsStatusOnly v ev = True"

text \<open>An effect that leaves the records stored under the id \<open>j\<close> alone.\<close>

fun leavesDeal :: "jsval \<Rightarrow> event \<Rightarrow> bool" where
  "leavesDeal j (UpdateDealStatus i st) = (i \<noteq> j)"
| "leavesDeal j (AddDeal r) = False"
| "leavesDeal j (UpdateDeal i p) = False"
| "leavesDeal j (DeleteDeal i) = False"
| "leavesDeal j ev = True"

text \<open>The effects one iteration of the expiry loop can have for the deal \<open>d\<close>.\<close>

fun expiryEvent :: "obj \<Rightarrow> event \<Rightarrow> bool" where
  "expiryEvent d (UpdateDealStatus i st) = (i = getProp d ''id'' \<and> st = ''missed'')"
| "expiryEvent d (ShowExpiryWarning d') = (d' = d)"
| "expiryEvent d (ConsoleError d' e) = (d' = d)"
| "expiryEvent d ev = False"

text \<open>The effects one iteration of the restock loop can have for the deal \<open>d\<close>.\<close>

fun restockEvent :: "obj \<Rightarrow> event \<Rightarrow> bool" where
  "restockEvent d (UpdateDealStatus i st) = (i = getProp d ''id'' \<and> st = ''watching'')"
| "restockEvent d (ShowRestockAlert d' info) = (d' = d)"
| "restockEvent d (Fetch u) = True"
| "restockEvent d (ConsoleError d' e) = (d' = d)"
| "restockEvent d ev = False"

section \<open>Fixtures\<close>

text \<open>
  Three zones: UTC; New York around the end of daylight saving time on 3 November 2024,
  when at 06:00 UTC the offset went from four to five hours west; and New York around its
  start on 10 March 2024, when at 07:00 UTC the offset went from five to four hours west.
\<close>

definition utcZone :: zone where
  "utcZone = \<lparr>offsetBefore = 0, offsetAfter = 0, changeAt = 0\<rparr>"

definition newYork :: zone where
  "newYork =
     \<lparr>offsetBefore = - 14400000, offsetAfter = - 18000000, changeAt = 1730613600000\<rparr>"

definition newYorkSpring :: zone where
  "newYorkSpring =
     \<lparr>offsetBefore = - 18000000, offsetAfter = - 14400000, changeAt = 1710054000000\<rparr>"

text \<open>
  The Unicode tables for the Latin-1 range, which is all the fixtures use: the capital
  letters U+00C0 to U+00DE (not the multiplication sign U+00D7) are 32 below their small
  forms; the cased characters are these, the small letters U+00DF to U+00FF (not the
  division sign U+00F7), the two ordinal indicators and the micro sign; the
  case-ignorable ones are the diaeresis, the soft hyphen, the macron, the acute accent,
  the middle dot and the cedilla.
\<close>

definition latin1 :: unicode where
  "latin1 =
     \<lparr>lowerMapping = (\<lambda>c. if 192 \<le> c \<and> c \<le> 222 \<and> c \<noteq> 215 then [c + 32] else [c]),
      cased = (\<lambda>c. c \<in> {170, 181, 186} \<or> (192 \<le> c \<and> c \<le> 255 \<and> c \<noteq> 215 \<and> c \<noteq> 247)),
      caseIgnorable = (\<lambda>c. c \<in> {168, 173, 175, 180, 183, 184})\<rparr>"

text \<open>
  An environment in which no collaborator call throws and no optional helper is defined.
  The numbers the fixtures multiply are integers whose products are far below 2^53, which
  the rounding to a double leaves as they are.
\<close>

definition quietEnv :: env where
  "quietEnv =
     \<lparr>throws = (\<lambda>ev. None), casing = latin1, roundToDouble = (\<lambda>r. r),
      dateParse = (\<lambda>s. None), stringToNumber = (\<lambda>s. None),
      numberToString = (\<lambda>r. lit ''number''), DateTimeHelper = None,
      StringSimilarityScorer = None, fetch = (\<lambda>u. None)\<rparr>"

text \<open>The state at start-up: \<^verbatim>\<open>let currentConfig = { ...DEFAULT_APP_CONFIG }\<close>, nothing stored.\<close>

definition initialState :: state where
  "initialState =
     \<lparr>store = [], settings = None, currentConfig = DEFAULT_APP_CONFIG, alarms = [], trace = []\<rparr>"

text \<open>A deal as a caller may send it to \<^verbatim>\<open>saveDeal\<close>, already carrying a status and a save date.\<close>

definition suppliedDeal :: obj where
  "suppliedDeal =
     [(''id'', Str ''deal-1''), (''title'', Str ''SuperTool Pro''),
      (''url'', Str ''https://appsumo.com/products/supertool''),
      (''status'', Str ''missed''), (''dateSaved'', Str ''2020-01-01T00:00:00.000Z'')]"

text \<open>
  A clock at noon UTC of 21 October 2024, a date parser that knows two ISO strings, three
  watched deals (two expired the day before, one expiring twelve hours later), and an
  environment in which storage rejects the status update of the first deal.
\<close>

definition fixtureParse :: "jsstring \<Rightarrow> int option" where
  "fixtureParse s =
     (if s = lit ''2024-10-20T00:00:00.000Z'' then Some 1729382400000
      else if s = lit ''2024-10-22T00:00:00.000Z'' then Some 1729555200000
      else None)"

definition clockEnv :: env where
  "clockEnv = quietEnv\<lparr>dateParse := fixtureParse\<rparr>"

definition noon :: int where
  "noon = 1729512000000"

definition expiredDeal :: obj where
  "expiredDeal =
     [(''id'', Str ''deal-1''), (''title'', Str ''SuperTool Pro''),
      (''url'', Str ''https://appsumo.com/products/supertool''),
      (''expiryDate'', Str ''2024-10-20T00:00:00.000Z''), (''status'', Str ''watching'')]"

definition soonDeal :: obj where
  "soonDeal =
     [(''id'', Str ''deal-2''), (''title'', Str ''MailWizard''),
      (''url'', Str ''https://appsumo.com/products/mailwizard''),
      (''expiryDate'', Str ''2024-10-22T00:00:00.000Z''), (''status'', Str ''watching'')]"

definition lapsedDeal :: obj where
  "lapsedDeal =
     [(''id'', Str ''deal-3''), (''title'', Str ''FormHero''),
      (''url'', Str ''https://appsumo.com/products/formhero''),
      (''expiryDate'', Str ''2024-10-20T00:00:00.000Z''), (''status'', Str ''watching'')]"

definition watchState :: state where
  "watchState = initialState\<lparr>store := [expiredDeal, soonDeal, lapsedDeal]\<rparr>"


text \<open>
  Two missed deals and a network: the page of the first answers 200, the page of the
  second answers 404, and the listing endpoint returns four candidates, of which the
  third is the first that is similar to the second deal's title. In \<open>jamEnv\<close> the
  notifier rejects every restock alert for the first deal.
\<close>

definition missedActive :: obj where
  "missedActive =
     [(''id'', Str ''deal-4''), (''title'', Str ''PhotoMagic''),
      (''url'', Str ''https://appsumo.com/products/photomagic''), (''status'', Str ''missed'')]"

definition missedGone :: obj where
  "missedGone =
     [(''id'', Str ''deal-5''), (''title'', Str ''SuperTool''),
      (''url'', Str ''https://appsumo.com/products/supertool-old''), (''status'', Str ''missed'')]"

definition listingNoUrl :: obj where
  "listingNoUrl = [(''title'', Str ''SuperTool Lite'')]"

definition listingOther :: obj where
  "listingOther =
     [(''title'', Str ''Unrelated Deal''), (''url'', Str ''https://appsumo.com/products/unrelated'')]"

definition listingMatch :: obj where
  "listingMatch =
     [(''title'', Str ''SuperTool Pro Max''),
      (''url'', Str ''https://appsumo.com/products/supertool-pro-max'')]"

definition listingLater :: obj where
  "listingLater =
     [(''title'', Str ''supertool''), (''url'', Str ''https://appsumo.com/products/supertool-2'')]"

definition restockFetch :: "jsval \<Rightarrow> response option" where
  "restockFetch u =
     (if u = Str ''https://appsumo.com/products/photomagic''
      then Some \<lparr>ok = True, json = None\<rparr>
      else if u = Str ''https://api.appsumo.com/v1/deals/active''
      then Some \<lparr>ok = True,
                 json = Some (DealsProperty [listingNoUrl, listingOther, listingMatch, listingLater])\<rparr>
      else if u = Str ''https://appsumo.com/products/supertool-old''
      then Some \<lparr>ok = False, json = None\<rparr>
      else None)"

definition restockEnv :: env where
  "restockEnv = quietEnv\<lparr>fetch := restockFetch\<rparr>"

definition missedState :: state where
  "missedState = initialState\<lparr>store := [missedActive, missedGone]\<rparr>"


section \<open>Strings: auxiliary facts\<close>

lemma lit_inject [simp]: "lit a = lit b \<longleftrightarrow> a = b"
  unfolding lit_def by (simp add: inj_map_eq_map inj_of_char)

lemma lit_Nil [simp]: "lit [] = []"
  by (simp add: lit_def)

lemma lit_Cons: "lit (c # cs) = of_char c # lit cs"
  by (simp add: lit_def)

lemma lit_append [simp]: "lit (a @ b) = lit a @ lit b"
  by (simp add: lit_def)

lemma lit_eq_Nil [simp]: "lit a = [] \<longleftrightarrow> a = []"
  by (simp add: lit_def)

lemma Str_inject [simp]: "Str a = Str b \<longleftrightarrow> a = b"
  by (simp add: Str_def)

lemma Str_distinct [simp]:
  "Str a \<noteq> Undefined" "Undefined \<noteq> Str a" "Str a \<noteq> Null" "Null \<noteq> Str a"
  "Str a \<noteq> Bool b" "Bool b \<noteq> Str a" "Str a \<noteq> Num r" "Num r \<noteq> Str a"
  by (simp_all add: Str_def)

lemma truthy_Str [simp]: "truthy (Str a) = (a \<noteq> [])"
  by (simp add: Str_def)

lemma newDate_Str [simp]: "newDate parse (Str a) = parse (lit a)"
  by (simp add: Str_def)

lemma Str_Text [simp]: "Str a = Text t \<longleftrightarrow> t = lit a" "Text t = Str a \<longleftrightarrow> t = lit a"
  by (auto simp: Str_def)

section \<open>Date Resolver: properties\<close>

lemma cleaned_tomorrow: "toLowerCase u (trim (lit ''tomorrow'')) = lit ''tomorrow''"
  by (simp add: lit_Cons toLowerCase_def trim_def isSpace_def lowerOf_def capitalSigma_def)

lemma tomorrow_not_tonight: "\<not> includesStr (lit ''tomorrow'') (lit ''tonight'')"
  by (simp add: lit_Cons)

lemma tomorrow_includes: "includesStr (lit ''tomorrow'') (lit ''tomorrow'')"
  by (simp add: lit_Cons)

lemma parse_tomorrow:
  "parseExpiryDate u z laterStages T (Str ''tomorrow'') =
     toISOString (setHoursEndOfDay z (setDatePlus z 1 (Some T)))"
  unfolding parseExpiryDate_def Str_def
  by (simp only: jsval.case cleaned_tomorrow Let_def tomorrow_not_tonight tomorrow_includes
        if_True if_False lit_eq_Nil) simp

text \<open>
  C7 (as stated, refuted): at the epoch in UTC, \<^verbatim>\<open>parseExpiryDate("tomorrow")\<close> answers the last
  millisecond of the next calendar day, 47:59:59.999 hours after the call, which is later
  than 25 hours after it.
\<close>

theorem tomorrow_within_25h_counterexample:
  "parseExpiryDate latin1 utcZone noLaterStages 0 (Str ''tomorrow'') = Inr (Some 172799999)
   \<and> \<not> (172799999 \<le> (0::int) + 25 * msPerHour)"
  by (simp add: parse_tomorrow setHoursEndOfDay_def setDatePlus_def toISOString_def clipTime_def
        maxTime_def utcTime_def localTime_def utcOffsetAt_def localOffsetAt_def utcZone_def
        msPerDay_def msPerHour_def)

lemma end_of_day_not_skipped:
  assumes "\<not> skipsEndOfDay z" and "offsetAfter z - offsetBefore z \<le> msPerHour"
    and "E mod msPerDay = msPerDay - 1"
  shows "\<not> (changeAt z + offsetBefore z \<le> E \<and> E < changeAt z + offsetAfter z)"
proof
  assume gap: "changeAt z + offsetBefore z \<le> E \<and> E < changeAt z + offsetAfter z"
  define s where "s = changeAt z + offsetBefore z"
  have small: "0 \<le> E - s" "E - s < offsetAfter z - offsetBefore z" "E - s < msPerDay"
    using gap assms(2) by (simp_all add: s_def msPerDay_def msPerHour_def)
  have "(msPerDay - 1) mod msPerDay = E mod msPerDay"
    using assms(3) by (simp add: msPerDay_def)
  hence "(msPerDay - 1 - s) mod msPerDay = (E - s) mod msPerDay"
    by (rule mod_diff_cong) simp
  also have "\<dots> = E - s" using small by simp
  finally have "skipsEndOfDay z"
    using small(2) by (simp add: skipsEndOfDay_def s_def)
  thus False using assms(1) by simp
qed

text \<open>
  Called one millisecond before local midnight of 9 March 2024 in New York, the answer is
  the end of 10 March, a day of 23 hours: exactly 23 hours later. Called at the last time
  value of a \<^verbatim>\<open>Date\<close>, \<^verbatim>\<open>setDate\<close> leaves an Invalid Date and \<^verbatim>\<open>toISOString\<close> throws.
\<close>

lemma tomorrow_spring_forward:
  "parseExpiryDate latin1 newYorkSpring noLaterStages 1710046799999 (Str ''tomorrow'')
     = Inr (Some (1710046799999 + 23 * msPerHour))"
  by (simp add: parse_tomorrow setHoursEndOfDay_def setDatePlus_def toISOString_def clipTime_def
        maxTime_def utcTime_def localTime_def utcOffsetAt_def localOffsetAt_def newYorkSpring_def
        msPerDay_def msPerHour_def)

lemma tomorrow_out_of_range:
  "parseExpiryDate latin1 utcZone noLaterStages maxTime (Str ''tomorrow'') = Inl RangeError"
  by (simp add: parse_tomorrow setHoursEndOfDay_def setDatePlus_def toISOString_def clipTime_def
        maxTime_def utcTime_def localTime_def utcOffsetAt_def localOffsetAt_def utcZone_def
        msPerDay_def)

text \<open>The offset in force at an instant and the offset with which a local time is read.\<close>

lemma utcOffsetAt_cases:
  "(utcOffsetAt z t = offsetBefore z \<and> t < changeAt z)
   \<or> (utcOffsetAt z t = offsetAfter z \<and> changeAt z \<le> t)"
  by (simp add: utcOffsetAt_def)

lemma localOffsetAt_cases:
  "(localOffsetAt z w = offsetBefore z \<and> w - offsetBefore z < changeAt z)
   \<or> (localOffsetAt z w = offsetAfter z \<and> changeAt z \<le> w - offsetBefore z
        \<and> changeAt z \<le> w - offsetAfter z)
   \<or> (localOffsetAt z w = offsetBefore z \<and> changeAt z \<le> w - offsetBefore z
        \<and> w - offsetAfter z < changeAt z)"
  by (simp add: localOffsetAt_def)

text \<open>
  C7 (amended): for every call time \<open>T\<close> such that \<open>T\<close> and \<open>T\<close> + 49 hours are time values of
  a \<^verbatim>\<open>Date\<close>, in a zone whose offset changes by at most one hour and does not skip the last
  millisecond of a day, \<^verbatim>\<open>parseExpiryDate("tomorrow")\<close> returns a non-null timestamp whose
  local time of day is 23:59:59.999 and which lies between \<open>T\<close> + 23 hours and \<open>T\<close> + 49
  hours: the end of the next calendar day.
\<close>

theorem tomorrow_end_of_next_day:
  assumes "\<bar>offsetAfter z - offsetBefore z\<bar> \<le> msPerHour"
    and "\<not> skipsEndOfDay z"
    and "- maxTime \<le> T" and "T + 49 * msPerHour \<le> maxTime"
  shows "\<exists>r. parseExpiryDate u z laterStages T (Str ''tomorrow'') = Inr (Some r)
       \<and> localTimeOfDay z r = 23 * msPerHour + 59 * 60000 + 59 * 1000 + 999
       \<and> T + 23 * msPerHour \<le> r \<and> r < T + 49 * msPerHour"
proof -
  define L1 where "L1 = localTime z T + 1 * msPerDay"
  define t1 where "t1 = utcTime z L1"
  define L2 where "L2 = localTime z t1"
  define E where
    "E = (L2 div msPerDay) * msPerDay + (23 * msPerHour + 59 * 60000 + 59 * 1000 + 999)"
  define r where "r = utcTime z E"
  have delta: "- 3600000 \<le> offsetAfter z - offsetBefore z"
    "offsetAfter z - offsetBefore z \<le> 3600000"
    using assms(1) by (simp_all add: msPerHour_def)
  have L1_eq: "L1 = T + utcOffsetAt z T + 86400000"
    by (simp add: L1_def localTime_def msPerDay_def)
  have t1_eq: "t1 = L1 - localOffsetAt z L1"
    by (simp add: t1_def utcTime_def)
  have L2_eq: "L2 = t1 + utcOffsetAt z t1"
    by (simp add: L2_def localTime_def)
  have r_eq: "r = E - localOffsetAt z E"
    by (simp add: r_def utcTime_def)
  have t1_bounds: "T + 82800000 \<le> t1 \<and> t1 \<le> T + 90000000"
    using delta L1_eq t1_eq utcOffsetAt_cases [of z T] localOffsetAt_cases [of z L1]
    by (elim disjE conjE; linarith)
  have range: "- 8640000000000000 \<le> T" "T + 176400000 \<le> 8640000000000000"
    using assms(3,4) by (simp_all add: maxTime_def msPerHour_def)
  have "\<bar>t1\<bar> \<le> 8640000000000000"
    using t1_bounds range by linarith
  hence clip1: "clipTime t1 = Some t1"
    by (simp add: clipTime_def maxTime_def)
  have E_eq: "E = (L2 div 86400000) * 86400000 + 86399999"
    by (simp add: E_def msPerDay_def msPerHour_def)
  have lo: "L2 \<le> E"
    using pos_mod_bound [of 86400000 L2] mult_div_mod_eq [of 86400000 L2]
    unfolding E_eq by linarith
  have hi: "E < L2 + 86400000"
    using pos_mod_sign [of 86400000 L2] mult_div_mod_eq [of 86400000 L2]
    unfolding E_eq by linarith
  have r_lower: "T + 82800000 \<le> r"
    using delta lo L1_eq t1_eq L2_eq r_eq utcOffsetAt_cases [of z T]
      localOffsetAt_cases [of z L1] utcOffsetAt_cases [of z t1] localOffsetAt_cases [of z E]
    by (elim disjE conjE; linarith)
  have r_upper: "r < T + 176400000"
    using delta hi L1_eq t1_eq L2_eq r_eq utcOffsetAt_cases [of z T]
      localOffsetAt_cases [of z L1] utcOffsetAt_cases [of z t1] localOffsetAt_cases [of z E]
    by (elim disjE conjE; linarith)
  have "\<bar>r\<bar> \<le> 8640000000000000"
    using r_lower r_upper range by linarith
  hence clip2: "clipTime r = Some r"
    by (simp add: clipTime_def maxTime_def)
  have next_day: "setDatePlus z 1 (Some T) = clipTime t1"
    by (simp add: setDatePlus_def t1_def L1_def)
  have end_of_day: "setHoursEndOfDay z (Some t1) = clipTime r"
    by (simp add: setHoursEndOfDay_def r_def E_def L2_def)
  have parsed: "parseExpiryDate u z laterStages T (Str ''tomorrow'') = Inr (Some r)"
    by (simp add: parse_tomorrow next_day clip1 end_of_day clip2 toISOString_def)
  have Emod: "E mod msPerDay = msPerDay - 1"
    by (simp add: E_eq msPerDay_def)
  have nogap: "\<not> (changeAt z + offsetBefore z \<le> E \<and> E < changeAt z + offsetAfter z)"
    using end_of_day_not_skipped [OF assms(2) _ Emod] assms(1) by simp
  have returns: "localTime z r = E"
    using nogap r_eq localOffsetAt_cases [of z E] utcOffsetAt_cases [of z r]
    unfolding localTime_def by (elim disjE conjE; linarith)
  have tod: "localTimeOfDay z r = 23 * msPerHour + 59 * 60000 + 59 * 1000 + 999"
    unfolding localTimeOfDay_def returns using Emod by (simp add: msPerDay_def msPerHour_def)
  show ?thesis
    using parsed tod r_lower r_upper by (simp add: msPerHour_def)
qed

text \<open>
  The night the clocks go back in New York: called at midnight of 2 November 2024, the
  answer is the end of 3 November, 48:59:59.999 hours later.
\<close>

theorem tomorrow_end_of_next_day_witness:
  "\<bar>offsetAfter newYork - offsetBefore newYork\<bar> \<le> msPerHour
   \<and> \<not> skipsEndOfDay newYork
   \<and> - maxTime \<le> (1730520000000::int) \<and> 1730520000000 + 49 * msPerHour \<le> maxTime
   \<and> parseExpiryDate latin1 newYork noLaterStages 1730520000000 (Str ''tomorrow'')
       = Inr (Some 1730696399999)
   \<and> localTimeOfDay newYork 1730696399999 = 23 * msPerHour + 59 * 60000 + 59 * 1000 + 999
   \<and> 1730520000000 + 23 * msPerHour \<le> (1730696399999::int)
   \<and> (1730696399999::int) < 1730520000000 + 49 * msPerHour"
proof -
  have h1: "\<bar>offsetAfter newYork - offsetBefore newYork\<bar> \<le> msPerHour"
    by (simp add: newYork_def msPerHour_def)
  have h2: "\<not> skipsEndOfDay newYork"
    by (simp add: skipsEndOfDay_def newYork_def msPerDay_def)
  have h3: "- maxTime \<le> (1730520000000::int)" by (simp add: maxTime_def)
  have h4: "(1730520000000::int) + 49 * msPerHour \<le> maxTime" by (simp add: maxTime_def msPerHour_def)
  have run: "parseExpiryDate latin1 newYork noLaterStages 1730520000000 (Str ''tomorrow'')
       = Inr (Some 1730696399999)"
    by (simp add: parse_tomorrow setHoursEndOfDay_def setDatePlus_def toISOString_def clipTime_def
        maxTime_def utcTime_def localTime_def utcOffsetAt_def localOffsetAt_def newYork_def
        msPerDay_def msPerHour_def)
  from tomorrow_end_of_next_day [OF h1 h2 h3 h4, of latin1 noLaterStages]
  obtain r where r: "parseExpiryDate latin1 newYork noLaterStages 1730520000000 (Str ''tomorrow'') = Inr (Some r)"
    "localTimeOfDay newYork r = 23 * msPerHour + 59 * 60000 + 59 * 1000 + 999"
    "1730520000000 + 23 * msPerHour \<le> r" "r < 1730520000000 + 49 * msPerHour"
    by blast
  have "r = 1730696399999" using r(1) run by simp
  thus ?thesis using h1 h2 h3 h4 run r by simp
qed

section \<open>Objects and strings: auxiliary facts\<close>

lemma getProp_setProp: "getProp (setProp ob k v) k' = (if k' = k then v else getProp ob k')"
  by (simp add: getProp_def setProp_def update_conv')

lemma map_of_spread:
  "distinct (map fst b) \<Longrightarrow> map_of (spread a b) = map_of a ++ map_of b"
proof (induction b arbitrary: a)
  case Nil
  then show ?case by (simp add: spread_def)
next
  case (Cons kv b)
  obtain k v where kv: "kv = (k, v)" by (cases kv)
  have notin: "map_of b k = None"
    using Cons.prems kv by (simp add: map_of_eq_None_iff)
  have step: "spread a (kv # b) = spread (setProp a k v) b"
    by (simp add: spread_def kv)
  have ih: "map_of (spread (setProp a k v) b) = map_of (setProp a k v) ++ map_of b"
    using Cons.IH Cons.prems by simp
  have upd: "map_of (setProp a k v) = (map_of a)(k \<mapsto> v)"
    by (simp add: setProp_def update_conv')
  have "(map_of a)(k \<mapsto> v) ++ map_of b = map_of a ++ map_of (kv # b)"
  proof (rule ext)
    fix x
    show "((map_of a)(k \<mapsto> v) ++ map_of b) x = (map_of a ++ map_of (kv # b)) x"
      using notin by (cases "map_of b x") (auto simp: kv map_add_def)
  qed
  then show ?case by (simp only: step ih upd)
qed

lemma getProp_spread:
  assumes "distinct (objectKeys b)"
  shows "getProp (spread a b) k = (if k \<in> set (objectKeys b) then getProp b k else getProp a k)"
proof (cases "map_of b k")
  case None
  then have "k \<notin> set (objectKeys b)" by (simp add: objectKeys_def map_of_eq_None_iff)
  then show ?thesis
    using assms None by (simp add: getProp_def map_of_spread objectKeys_def map_add_def)
next
  case (Some v)
  then have "k \<in> set (objectKeys b)"
    using map_of_eq_None_iff [of b k] by (simp add: objectKeys_def)
  then show ?thesis
    using assms Some by (simp add: getProp_def map_of_spread objectKeys_def map_add_def)
qed

lemma currentConfig_perform [simp]: "currentConfig (snd (perform env ev s)) = currentConfig s"
  by (cases ev) (simp_all add: perform_def split: option.splits)

text \<open>Where no capital sigma occurs, lower-casing works character by character.\<close>

lemma lowerFrom_plain:
  "capitalSigma \<notin> set s \<Longrightarrow> lowerFrom u seen s = concat (map (lowerOf u) s)"
  by (induction s arbitrary: seen) simp_all

lemma toLowerCase_plain:
  "capitalSigma \<notin> set s \<Longrightarrow> toLowerCase u s = concat (map (lowerOf u) s)"
  by (simp add: toLowerCase_def lowerFrom_plain)

lemma starts_append: "startsWith (t @ q) t"
  by (induction t) auto

lemma includes_append: "includesStr (p @ t @ q) t"
proof (induction p)
  case Nil
  show ?case by (cases "t @ q") (use starts_append [of t q] in auto)
next
  case (Cons x p)
  then show ?case by simp
qed


section \<open>Configuration load, basic title match, saving a deal\<close>

lemma config_after_load:
  "currentConfig (snd (loadAndApplyConfig env s)) =
     (case throws env GetSettings of
        Some e \<Rightarrow> DEFAULT_APP_CONFIG
      | None \<Rightarrow>
          (case settings s of
             None \<Rightarrow> DEFAULT_APP_CONFIG
           | Some u \<Rightarrow> if u = [] then DEFAULT_APP_CONFIG else spread DEFAULT_APP_CONFIG u))"
  unfolding loadAndApplyConfig_def Let_def
  by (simp add: perform_def objectKeys_def split: option.splits prod.splits sum.splits)

text \<open>
  C6: after \<^verbatim>\<open>loadAndApplyConfig\<close>, \<^verbatim>\<open>currentConfig\<close> is the compiled defaults, unmodified, when
  \<^verbatim>\<open>storage.getSettings()\<close> throws or yields nothing or an empty object; when it yields a
  non-empty settings object, every field of the result is the override's where the
  override has that field, and the default's otherwise.
\<close>

theorem loadAndApplyConfig_result:
  "(throws env GetSettings \<noteq> None \<or> settings s = None \<or> settings s = Some []
      \<longrightarrow> currentConfig (snd (loadAndApplyConfig env s)) = DEFAULT_APP_CONFIG)
   \<and> (throws env GetSettings = None \<and> settings s = Some u \<and> u \<noteq> [] \<and> distinct (objectKeys u)
      \<longrightarrow> (\<forall>k. getProp (currentConfig (snd (loadAndApplyConfig env s))) k =
                (if k \<in> set (objectKeys u) then getProp u k
                 else getProp DEFAULT_APP_CONFIG k)))"
  by (auto simp: config_after_load getProp_spread split: option.splits)

theorem loadAndApplyConfig_result_witness:
  "currentConfig (snd (loadAndApplyConfig quietEnv initialState)) = DEFAULT_APP_CONFIG
   \<and> getProp (currentConfig (snd (loadAndApplyConfig quietEnv
        (initialState\<lparr>settings := Some [(''expiryWarningLeadTimeHours'', Num 24)]\<rparr>))))
        ''expiryWarningLeadTimeHours'' = Num 24
   \<and> getProp (currentConfig (snd (loadAndApplyConfig quietEnv
        (initialState\<lparr>settings := Some [(''expiryWarningLeadTimeHours'', Num 24)]\<rparr>))))
        ''similarityThreshold'' = Num (4 / 5)"
  using loadAndApplyConfig_result [of quietEnv initialState]
    loadAndApplyConfig_result [of quietEnv
      "initialState\<lparr>settings := Some [(''expiryWarningLeadTimeHours'', Num 24)]\<rparr>"
      "[(''expiryWarningLeadTimeHours'', Num 24)]"]
  by (simp add: quietEnv_def initialState_def objectKeys_def getProp_def DEFAULT_APP_CONFIG_def)

text \<open>
  The basic title match on titles without a capital sigma: titles that are equal ignoring
  case, or of which one is a case-insensitive substring of the other, are similar.
\<close>

lemma sameLetter_lower:
  assumes "sameLetter u c d" and "c \<noteq> capitalSigma" and "d \<noteq> capitalSigma"
  shows "lowerOf u c = lowerOf u d"
  using assms by (auto simp: sameLetter_def letterOf_def)

lemma equalIgnoringCase_lower:
  assumes "equalIgnoringCase u a b" and "capitalSigma \<notin> set a" and "capitalSigma \<notin> set b"
  shows "toLowerCase u a = toLowerCase u b"
proof -
  have "list_all2 (sameLetter u) a b" using assms(1) by (simp add: equalIgnoringCase_def)
  hence "concat (map (lowerOf u) a) = concat (map (lowerOf u) b)"
    using assms(2,3)
    by (induction rule: list_all2_induct) (simp_all add: sameLetter_lower)
  thus ?thesis using assms(2,3) by (simp add: toLowerCase_plain)
qed

lemma substringIgnoringCase_includes:
  assumes "substringIgnoringCase u a b" and "capitalSigma \<notin> set a"
    and "capitalSigma \<notin> set b"
  shows "includesStr (toLowerCase u b) (toLowerCase u a)"
proof -
  obtain p m q where b: "b = p @ m @ q" and m: "equalIgnoringCase u a m"
    using assms(1) unfolding substringIgnoringCase_def by blast
  have parts: "capitalSigma \<notin> set p" "capitalSigma \<notin> set m" "capitalSigma \<notin> set q"
    using assms(3) by (simp_all add: b)
  have "toLowerCase u b = toLowerCase u p @ toLowerCase u m @ toLowerCase u q"
    using assms(3) parts by (simp add: toLowerCase_plain b)
  also have "toLowerCase u m = toLowerCase u a"
    using equalIgnoringCase_lower [OF m assms(2) parts(2)] by simp
  finally show ?thesis by (simp only: includes_append)
qed

lemma basic_title_match_floor:
  assumes "StringSimilarityScorer env = None"
    and "capitalSigma \<notin> set a" and "capitalSigma \<notin> set b"
    and "equalIgnoringCase (casing env) a b \<or> substringIgnoringCase (casing env) a b
         \<or> substringIgnoringCase (casing env) b a"
  shows "isSimilar env (Text a) (Text b) threshold = Inr True"
  using assms equalIgnoringCase_lower [of "casing env" a b]
    substringIgnoringCase_includes [of "casing env" a b]
    substringIgnoringCase_includes [of "casing env" b a]
  by (auto simp: isSimilar_def)

text \<open>The two examples of section 8, and a pair of titles with an accented letter.\<close>

lemma basic_title_match_examples:
  "isSimilar quietEnv (Str ''SuperTool Pro'') (Str ''supertool pro'') (Num (4 / 5)) = Inr True"
  "isSimilar quietEnv (Str ''SuperTool'') (Str ''SuperTool Pro Max'') (Num (4 / 5)) = Inr True"
  "isSimilar quietEnv (Text (lit ''CAF'' @ [201])) (Text (lit ''caf'' @ [233])) (Num (4 / 5))
     = Inr True"
  by (simp_all add: isSimilar_def quietEnv_def latin1_def Str_def lit_Cons toLowerCase_def
        lowerOf_def capitalSigma_def)

text \<open>
  C8 (the code diverges): with no scorer defined, the basic title match answers false for
  the titles \<^verbatim>\<open>A\<close> followed by a capital sigma, and the same followed by \<^verbatim>\<open>B\<close>, although
  the first is a substring of the second as it stands. Lower-casing turns the sigma that
  ends the first title into the final small sigma and the sigma inside the second into
  the plain small sigma, so neither lower-cased title contains the other.
\<close>

theorem basic_title_match_misses_final_sigma:
  "substringIgnoringCase (casing quietEnv)
     (lit ''A'' @ [capitalSigma]) (lit ''A'' @ [capitalSigma] @ lit ''B'')
   \<and> isSimilar quietEnv (Text (lit ''A'' @ [capitalSigma]))
         (Text (lit ''A'' @ [capitalSigma] @ lit ''B'')) (Num (4 / 5)) = Inr False"
proof -
  have "lit ''A'' @ [capitalSigma] @ lit ''B'' = [] @ (lit ''A'' @ [capitalSigma]) @ lit ''B''"
    by simp
  moreover have "equalIgnoringCase (casing quietEnv)
      (lit ''A'' @ [capitalSigma]) (lit ''A'' @ [capitalSigma])"
    by (simp add: equalIgnoringCase_def sameLetter_def list_all2_same)
  ultimately have contained: "substringIgnoringCase (casing quietEnv)
      (lit ''A'' @ [capitalSigma]) (lit ''A'' @ [capitalSigma] @ lit ''B'')"
    unfolding substringIgnoringCase_def by blast
  have first: "toLowerCase u [65, capitalSigma] = [97, 962]" for u
    by (simp add: toLowerCase_def lowerOf_def isCased_def isCaseIgnorable_def
          capitalSigma_def finalSmallSigma_def smallSigma_def)
  have second: "toLowerCase u [65, capitalSigma, 66] = [97, 963, 98]" for u
    by (simp add: toLowerCase_def lowerOf_def isCased_def isCaseIgnorable_def
          capitalSigma_def finalSmallSigma_def smallSigma_def)
  have "isSimilar quietEnv (Text (lit ''A'' @ [capitalSigma]))
         (Text (lit ''A'' @ [capitalSigma] @ lit ''B'')) (Num (4 / 5)) = Inr False"
    by (simp add: isSimilar_def lit_Cons first second quietEnv_def)
  with contained show ?thesis by simp
qed

text \<open>
  C10: for every valid input (truthy id, title and url) that storage accepts,
  \<^verbatim>\<open>handleSaveDeal\<close> appends exactly one record to the store; its status is \<^verbatim>\<open>watching\<close> and
  its \<^verbatim>\<open>dateSaved\<close> is the fresh timestamp, whatever status or save date the caller
  supplied, and every other field is the caller's.
\<close>

theorem handleSaveDeal_stores_watching:
  assumes "truthy (getProp dd ''id'')" and "truthy (getProp dd ''title'')"
    and "truthy (getProp dd ''url'')" and "\<forall>r. throws env (AddDeal r) = None"
  shows "\<exists>saved. store (snd (handleSaveDeal env savedDate (Some dd) s)) = store s @ [saved]
           \<and> getProp saved ''status'' = Str ''watching''
           \<and> getProp saved ''dateSaved'' = Str savedDate
           \<and> (\<forall>k. k \<noteq> ''status'' \<and> k \<noteq> ''dateSaved'' \<longrightarrow> getProp saved k = getProp dd k)"
  using assms
  by (simp add: handleSaveDeal_def Let_def perform_def addDeal_def getProp_setProp
      split: option.splits prod.splits sum.splits)


theorem handleSaveDeal_stores_watching_witness:
  "truthy (getProp suppliedDeal ''id'') \<and> truthy (getProp suppliedDeal ''title'')
   \<and> truthy (getProp suppliedDeal ''url'')
   \<and> getProp suppliedDeal ''status'' = Str ''missed''
   \<and> (\<exists>saved. store (snd (handleSaveDeal quietEnv ''2024-10-20T00:00:00.000Z''
                       (Some suppliedDeal) initialState)) = store initialState @ [saved]
          \<and> getProp saved ''status'' = Str ''watching''
          \<and> getProp saved ''dateSaved'' = Str ''2024-10-20T00:00:00.000Z''
          \<and> getProp saved ''title'' = Str ''SuperTool Pro'')"
proof -
  have valid: "truthy (getProp suppliedDeal ''id'')" "truthy (getProp suppliedDeal ''title'')"
    "truthy (getProp suppliedDeal ''url'')"
    by (simp_all add: suppliedDeal_def getProp_def)
  have accepts: "\<forall>r. throws quietEnv (AddDeal r) = None"
    by (simp add: quietEnv_def)
  have supplied: "getProp suppliedDeal ''status'' = Str ''missed''"
    "getProp suppliedDeal ''title'' = Str ''SuperTool Pro''"
    by (simp_all add: suppliedDeal_def getProp_def)
  obtain saved where
    "store (snd (handleSaveDeal quietEnv ''2024-10-20T00:00:00.000Z''
        (Some suppliedDeal) initialState)) = store initialState @ [saved]"
    "getProp saved ''status'' = Str ''watching''"
    "getProp saved ''dateSaved'' = Str ''2024-10-20T00:00:00.000Z''"
    "\<forall>k. k \<noteq> ''status'' \<and> k \<noteq> ''dateSaved'' \<longrightarrow> getProp saved k = getProp suppliedDeal k"
    using handleSaveDeal_stores_watching [OF valid accepts] by blast
  then show ?thesis using valid supplied by auto
qed

section \<open>Effects and the store: auxiliary facts\<close>

lemma trace_effect [simp]: "trace (effect ev s) = trace s"
  by (cases ev) simp_all

lemma replay_append: "replay (a @ b) s = replay b (replay a s)"
  by (induction a arbitrary: s) simp_all

lemma trace_replay: "trace (replay evs s) = trace s @ evs"
  by (induction evs arbitrary: s) simp_all

lemma emitted_replay: "drop (length (trace s)) (trace (replay evs s)) = evs"
  by (simp add: trace_replay)

lemma perform_replay:
  "perform env ev s =
     (case throws env ev of Some e \<Rightarrow> (Inl e, s) | None \<Rightarrow> (Inr (), replay [ev] s))"
  by (simp add: perform_def split: option.splits)

lemma request_replay: "request env u s = (fetch env u, replay [Fetch u] s)"
  by (simp add: request_def)

lemma consoleError_replay: "consoleError d e s = replay [ConsoleError d e] s"
  by (simp add: consoleError_def)

lemma id_setStatus [simp]: "getProp (setProp r ''status'' v) ''id'' = getProp r ''id''"
  by (simp add: getProp_setProp)

lemma status_setStatus [simp]: "getProp (setProp r ''status'' v) ''status'' = v"
  by (simp add: getProp_setProp)

lemma setStatus_twice [simp]: "setProp (setProp r ''status'' v) ''status'' w = setProp r ''status'' w"
  by (simp add: setProp_def)

lemma ids_updateDealStatus [simp]:
  "map (\<lambda>r. getProp r ''id'') (updateDealStatus i v st) = map (\<lambda>r. getProp r ''id'') st"
  by (simp add: updateDealStatus_def)

lemma updated_status:
  assumes "r \<in> set (updateDealStatus i v st)" and "getProp r ''id'' = i"
  shows "getProp r ''status'' = Str v"
proof -
  obtain x where "x \<in> set st"
    and r: "r = (if getProp x ''id'' = i then setProp x ''status'' (Str v) else x)"
    using assms(1) unfolding updateDealStatus_def set_map by blast
  show ?thesis
  proof (cases "getProp x ''id'' = i")
    case True
    then show ?thesis using r by simp
  next
    case False
    then show ?thesis using r assms(2) by simp
  qed
qed

lemma updated_member:
  "x \<in> set st \<Longrightarrow>
   (if getProp x ''id'' = i then setProp x ''status'' (Str v) else x) \<in> set (updateDealStatus i v st)"
  unfolding updateDealStatus_def set_map by (rule image_eqI [where x = x]) simp_all

lemma updated_keeps_status:
  assumes "\<forall>r \<in> set st. getProp r ''id'' = j \<longrightarrow> getProp r ''status'' = Str v"
    and "r \<in> set (updateDealStatus i v st)" and "getProp r ''id'' = j"
  shows "getProp r ''status'' = Str v"
proof -
  obtain x where x: "x \<in> set st"
    and r: "r = (if getProp x ''id'' = i then setProp x ''status'' (Str v) else x)"
    using assms(2) unfolding updateDealStatus_def set_map by blast
  show ?thesis
  proof (cases "getProp x ''id'' = i")
    case True
    then show ?thesis using r by simp
  next
    case False
    then show ?thesis using r x assms(1,3) by simp
  qed
qed

lemma others_updateDealStatus:
  "i \<noteq> j \<Longrightarrow>
   filter (\<lambda>r. getProp r ''id'' = j) (updateDealStatus i v st) = filter (\<lambda>r. getProp r ''id'' = j) st"
  unfolding updateDealStatus_def by (induction st) simp_all

lemma own_updateDealStatus:
  "filter (\<lambda>r. getProp r ''id'' = j) (updateDealStatus j v st) =
     map (\<lambda>r. setProp r ''status'' (Str v)) (filter (\<lambda>r. getProp r ''id'' = j) st)"
  unfolding updateDealStatus_def by (induction st) simp_all

lemma getProp_spread_other: "k \<notin> set (objectKeys p) \<Longrightarrow> getProp (spread r p) k = getProp r k"
proof (induction p arbitrary: r)
  case Nil
  then show ?case by (simp add: spread_def)
next
  case (Cons kv p)
  have "spread r (kv # p) = spread (setProp r (fst kv) (snd kv)) p" by (simp add: spread_def)
  then show ?case using Cons by (simp add: objectKeys_def getProp_setProp)
qed

text \<open>Replaying events that only set statuses to \<open>v\<close>.\<close>

lemma replay_status_kept:
  assumes "list_all (setsStatusOnly v) evs"
    and "\<forall>r \<in> set (store s). getProp r ''id'' = j \<longrightarrow> getProp r ''status'' = Str v"
  shows "\<forall>r \<in> set (store (replay evs s)). getProp r ''id'' = j \<longrightarrow> getProp r ''status'' = Str v"
  using assms
proof (induction evs arbitrary: s)
  case Nil
  then show ?case by simp
next
  case (Cons ev evs)
  have "\<forall>r \<in> set (store (effect ev s)). getProp r ''id'' = j \<longrightarrow> getProp r ''status'' = Str v"
  proof (cases ev)
    case (UpdateDealStatus i st)
    then have st: "st = v" using Cons.prems by simp
    show ?thesis
      using updated_keeps_status [of "store s" j v _ i] Cons.prems(2)
      by (auto simp: UpdateDealStatus st)
  qed (use Cons.prems in simp_all)
  then show ?case using Cons.IH [of "(effect ev s)\<lparr>trace := trace (effect ev s) @ [ev]\<rparr>"] Cons.prems
    by simp
qed

lemma replay_member_or_set:
  assumes "list_all (setsStatusOnly v) evs" and "x \<in> set (store s)"
  shows "x \<in> set (store (replay evs s)) \<or> setProp x ''status'' (Str v) \<in> set (store (replay evs s))"
  using assms
proof (induction evs arbitrary: s x)
  case Nil
  then show ?case by simp
next
  case (Cons ev evs)
  let ?s1 = "(effect ev s)\<lparr>trace := trace (effect ev s) @ [ev]\<rparr>"
  have "x \<in> set (store ?s1) \<or> setProp x ''status'' (Str v) \<in> set (store ?s1)"
  proof (cases ev)
    case (UpdateDealStatus i st)
    then have st: "st = v" using Cons.prems by simp
    show ?thesis
      using updated_member [OF Cons.prems(2), of i v]
      by (cases "getProp x ''id'' = i") (simp_all add: UpdateDealStatus st)
  qed (use Cons.prems in simp_all)
  then show ?case
  proof
    assume "x \<in> set (store ?s1)"
    then show ?thesis using Cons.IH [where s = ?s1 and x = x] Cons.prems by simp
  next
    assume "setProp x ''status'' (Str v) \<in> set (store ?s1)"
    then show ?thesis using Cons.IH [where s = ?s1 and x = "setProp x ''status'' (Str v)"] Cons.prems by simp
  qed
qed

lemma replay_leaves_deal:
  assumes "list_all (leavesDeal j) evs"
  shows "filter (\<lambda>r. getProp r ''id'' = j) (store (replay evs s)) =
         filter (\<lambda>r. getProp r ''id'' = j) (store s)"
  using assms
proof (induction evs arbitrary: s)
  case Nil
  then show ?case by simp
next
  case (Cons ev evs)
  have "filter (\<lambda>r. getProp r ''id'' = j) (store (effect ev s)) =
        filter (\<lambda>r. getProp r ''id'' = j) (store s)"
    using Cons.prems by (cases ev) (simp_all add: others_updateDealStatus)
  then show ?case using Cons.IH [of "(effect ev s)\<lparr>trace := trace (effect ev s) @ [ev]\<rparr>"] Cons.prems
    by simp
qed


section \<open>Expiry checks: properties\<close>

text \<open>
  An iteration on a record never throws, and what it does is the same from every state:
  it performs the effects the record has on its own.
\<close>

lemma expiryStep_uniform:
  "expiryStep env lead now (Some d) s = (Inr (), replay (expiryEffects env lead now d) s)"
  unfolding expiryEffects_def expiryStep_def expiryTry_def perform_replay consoleError_replay
  by (simp add: blank_def split: option.splits sum.splits)

lemma expiryEffects_events: "list_all (expiryEvent d) (expiryEffects env lead now d)"
  unfolding expiryEffects_def expiryStep_def expiryTry_def perform_replay consoleError_replay
  by (simp add: blank_def split: option.splits sum.splits)

lemma expiryStep_replay:
  "\<exists>evs. expiryStep env lead now (Some d) s = (Inr (), replay evs s)
         \<and> list_all (expiryEvent d) evs"
  using expiryStep_uniform expiryEffects_events by blast

lemma expiryLoop_append:
  "expiryLoop env lead now (xs @ ys) s =
     (case expiryLoop env lead now xs s of
        (Inl e, s1) \<Rightarrow> (Inl e, s1)
      | (Inr u, s1) \<Rightarrow> expiryLoop env lead now ys s1)"
  by (induction xs arbitrary: s) (simp_all split: prod.splits sum.splits)

lemma expiryLoop_through:
  assumes "expiryLoop env lead now (map Some xs) s = (Inr (), s1)"
    and "expiryStep env lead now (Some d) s1 = (Inr (), s2)"
  shows "expiryLoop env lead now (map Some (xs @ d # ys)) s
         = expiryLoop env lead now (map Some ys) s2"
  using assms by (simp add: expiryLoop_append)

lemma expiryLoop_uniform:
  "expiryLoop env lead now (map Some zs) s
     = (Inr (), replay (concat (map (expiryEffects env lead now) zs)) s)"
  by (induction zs arbitrary: s) (simp_all add: expiryStep_uniform replay_append)

lemma expiryLoop_replay:
  "\<exists>evs. expiryLoop env lead now (map Some zs) s = (Inr (), replay evs s)
         \<and> (\<forall>ev \<in> set evs. \<exists>z \<in> set zs. expiryEvent z ev)"
proof -
  have "\<forall>ev \<in> set (concat (map (expiryEffects env lead now) zs)). \<exists>z \<in> set zs. expiryEvent z ev"
    using expiryEffects_events [of _ env lead now] by (auto simp: list_all_iff)
  thus ?thesis using expiryLoop_uniform by blast
qed

lemma expiryEvent_sets_missed: "expiryEvent z ev \<Longrightarrow> setsStatusOnly ''missed'' ev"
  by (cases ev) simp_all


lemma expired_step:
  assumes "truthy (getProp d ''expiryDate'')"
    and "newDate (dateParse env) (getProp d ''expiryDate'') = Some expiry"
    and "expiry < now"
    and "throws env (UpdateDealStatus (getProp d ''id'') ''missed'') = None"
  shows "expiryStep env lead now (Some d) s
         = (Inr (), replay [UpdateDealStatus (getProp d ''id'') ''missed''] s)"
  using assms by (simp add: expiryStep_def expiryTry_def perform_replay del: replay.simps)


lemma filter_unique:
  "distinct (map f st) \<Longrightarrow> d \<in> set st \<Longrightarrow> filter (\<lambda>r. f r = f d) st = [d]"
proof (induction st)
  case Nil
  then show ?case by simp
next
  case (Cons x st)
  show ?case
  proof (cases "x = d")
    case True
    then have "\<forall>r \<in> set st. f r \<noteq> f d" using Cons.prems(1) by (auto simp: image_iff)
    then have "filter (\<lambda>r. f r = f d) st = []" by (simp add: filter_empty_conv)
    then show ?thesis using True by simp
  next
    case False
    then have "d \<in> set st" using Cons.prems(2) by simp
    moreover have "f x \<noteq> f d" using Cons.prems(1) \<open>d \<in> set st\<close> by (auto simp: image_iff)
    ultimately show ?thesis using Cons by simp
  qed
qed

lemma neighbours_differ:
  assumes "distinct (map f st)" and "filter P st = xs @ d # ys"
  shows "\<forall>z \<in> set xs \<union> set ys. z \<noteq> d \<and> f z \<noteq> f d"
proof -
  have "distinct (map f (filter P st))" using assms(1) by (rule distinct_map_filter)
  then have "distinct (map f (xs @ d # ys))" by (simp only: assms(2))
  then show ?thesis by (auto simp: image_iff)
qed


text \<open>
  C1: a deal the run fetched as \<^verbatim>\<open>watching\<close>, whose expiry date is present, parses and is
  strictly earlier than the clock, is stored with status \<^verbatim>\<open>missed\<close> after one run of
  \<^verbatim>\<open>performExpiryChecks\<close>, and so is every record under its id, provided storage
  completes the two calls made for it. Failures on other deals do not matter.
\<close>

theorem expired_deal_marked_missed:
  assumes "throws env (GetDealsByStatus ''watching'') = None"
    and "d \<in> set (getDealsByStatus ''watching'' (store s))"
    and "truthy (getProp d ''expiryDate'')"
    and "newDate (dateParse env) (getProp d ''expiryDate'') = Some expiry"
    and "expiry < now"
    and "throws env (UpdateDealStatus (getProp d ''id'') ''missed'') = None"
  shows "fst (performExpiryChecks env now s) = Inr ()
    \<and> setProp d ''status'' (Str ''missed'') \<in> set (store (snd (performExpiryChecks env now s)))
    \<and> (\<forall>r \<in> set (store (snd (performExpiryChecks env now s))).
          getProp r ''id'' = getProp d ''id'' \<longrightarrow> getProp r ''status'' = Str ''missed'')"
proof -
  define lead where "lead = leadTimeInMs env (currentConfig s)"
  define j where "j = getProp d ''id''"
  define md where "md = setProp d ''status'' (Str ''missed'')"
  obtain xs ys where split: "getDealsByStatus ''watching'' (store s) = xs @ d # ys"
    using assms(2) by (auto dest: split_list)
  have run: "performExpiryChecks env now s =
      expiryLoop env lead now (map Some (xs @ d # ys)) s"
    by (simp add: performExpiryChecks_def assms(1) split lead_def)
  obtain e1 where e1: "expiryLoop env lead now (map Some xs) s = (Inr (), replay e1 s)"
    "\<forall>ev \<in> set e1. \<exists>z \<in> set xs. expiryEvent z ev"
    using expiryLoop_replay by blast
  define s1 where "s1 = replay e1 s"
  define s2 where "s2 = replay [UpdateDealStatus j ''missed''] s1"
  obtain e3 where e3: "expiryLoop env lead now (map Some ys) s2 = (Inr (), replay e3 s2)"
    "\<forall>ev \<in> set e3. \<exists>z \<in> set ys. expiryEvent z ev"
    using expiryLoop_replay by blast
  have only1: "list_all (setsStatusOnly ''missed'') e1"
    using e1(2) by (auto simp: list_all_iff dest: expiryEvent_sets_missed)
  have only3: "list_all (setsStatusOnly ''missed'') e3"
    using e3(2) by (auto simp: list_all_iff dest: expiryEvent_sets_missed)
  have "d \<in> set (store s)" using assms(2) by (simp add: getDealsByStatus_def)
  then have before: "d \<in> set (store s1) \<or> md \<in> set (store s1)"
    unfolding s1_def md_def by (rule replay_member_or_set [OF only1])
  have store2: "store s2 = updateDealStatus j ''missed'' (store s1)"
    by (simp add: s2_def)
  have in2: "md \<in> set (store s2)"
  proof -
    from before show ?thesis
    proof
      assume "d \<in> set (store s1)"
      then show ?thesis
        using updated_member [of d "store s1" j "''missed''"] by (simp add: store2 j_def md_def)
    next
      assume "md \<in> set (store s1)"
      then show ?thesis
        using updated_member [of md "store s1" j "''missed''"] by (simp add: store2 j_def md_def)
    qed
  qed
  have all2: "\<forall>r \<in> set (store s2). getProp r ''id'' = j \<longrightarrow> getProp r ''status'' = Str ''missed''"
    using updated_status [of _ j "''missed''" "store s1"] by (simp add: store2)
  have step: "expiryStep env lead now (Some d) s1 = (Inr (), s2)"
    unfolding s2_def j_def by (rule expired_step [OF assms(3-6)])
  have final: "expiryLoop env lead now (map Some (xs @ d # ys)) s = (Inr (), replay e3 s2)"
    using expiryLoop_through [OF e1(1) [folded s1_def] step] e3(1) by simp
  have "md \<in> set (store (replay e3 s2))"
    using replay_member_or_set [OF only3 in2] by (simp add: md_def)
  moreover have "\<forall>r \<in> set (store (replay e3 s2)).
      getProp r ''id'' = j \<longrightarrow> getProp r ''status'' = Str ''missed''"
    by (rule replay_status_kept [OF only3 all2])
  moreover have "performExpiryChecks env now s = (Inr (), replay e3 s2)"
    by (simp only: run final)
  ultimately show ?thesis
    by (simp add: md_def [symmetric] j_def [symmetric])
qed

theorem expired_deal_marked_missed_witness:
  "expiredDeal \<in> set (getDealsByStatus ''watching'' (store watchState))
   \<and> newDate (dateParse clockEnv) (getProp expiredDeal ''expiryDate'') = Some 1729382400000
   \<and> (1729382400000::int) < noon
   \<and> fst (performExpiryChecks clockEnv noon watchState) = Inr ()
   \<and> setProp expiredDeal ''status'' (Str ''missed'')
        \<in> set (store (snd (performExpiryChecks clockEnv noon watchState)))"
proof -
  have h1: "throws clockEnv (GetDealsByStatus ''watching'') = None"
    by (simp add: clockEnv_def quietEnv_def)
  have h2: "expiredDeal \<in> set (getDealsByStatus ''watching'' (store watchState))"
    by (simp add: getDealsByStatus_def watchState_def initialState_def expiredDeal_def
        getProp_def)
  have h3: "truthy (getProp expiredDeal ''expiryDate'')"
    by (simp add: expiredDeal_def getProp_def)
  have h4: "newDate (dateParse clockEnv) (getProp expiredDeal ''expiryDate'') = Some 1729382400000"
    by (simp add: clockEnv_def quietEnv_def expiredDeal_def getProp_def fixtureParse_def)
  have h5: "(1729382400000::int) < noon" by (simp add: noon_def)
  have h6: "throws clockEnv (UpdateDealStatus (getProp expiredDeal ''id'') ''missed'') = None"
    by (simp add: clockEnv_def quietEnv_def)
  show ?thesis
    using expired_deal_marked_missed [OF h1 h2 h3 h4 h5 h6] h2 h4 h5 by simp
qed





section \<open>Restock checks: properties\<close>

lemma replay_pair: "replay (a # b # evs) s = replay (b # evs) (replay [a] s)"
  by simp

lemma checkDealPageActive_eq:
  "checkDealPageActive env u s =
     (probeActive env u, replay (if truthy u then [Fetch u] else []) s)"
  by (simp add: checkDealPageActive_def probeActive_def request_replay split: option.splits)

lemma fetchCurrent_eq:
  "fetchCurrentAppSumoDealsFromServer env ep s =
     (if listingNotIterable env ep then NotIterable else Candidates (currentListings env ep),
      replay (if truthy ep then [Fetch ep] else []) s)"
  by (simp add: fetchCurrentAppSumoDealsFromServer_def currentListings_def
      listingNotIterable_def request_replay split: option.splits payload.splits)

lemma listed_iterable: "currentListings env ep \<noteq> [] \<Longrightarrow> \<not> listingNotIterable env ep"
  by (auto simp: currentListings_def listingNotIterable_def split: option.splits if_splits)

text \<open>The scan of the candidates does the same from every state.\<close>

lemma scanListings_shape:
  "\<exists>r evs. (\<forall>s. scanListings env cfg d cs s = (r, replay evs s))
           \<and> list_all (restockEvent d) evs"
proof (induction cs)
  case Nil
  show ?case by (intro exI [of _ "Inr ()"] exI [of _ "[]"]) simp
next
  case (Cons c cs)
  let ?alert = "ShowRestockAlert d (similarListingInfo env d c)"
  let ?sim = "isSimilar env (getProp d ''title'') (getProp c ''title'')
                (getProp cfg ''similarityThreshold'')"
  show ?case
  proof (cases "truthy (getProp d ''title'') \<and> truthy (getProp c ''title'')
                \<and> truthy (getProp c ''url'')")
    case False
    then have "scanListings env cfg d (c # cs) s = scanListings env cfg d cs s" for s by auto
    then show ?thesis using Cons.IH by simp
  next
    case guard: True
    show ?thesis
    proof (cases ?sim)
      case (Inl e)
      then have "scanListings env cfg d (c # cs) s = (Inl e, replay [] s)" for s
        using guard by simp
      then show ?thesis by (intro exI [of _ "Inl e"] exI [of _ "[]"]) simp
    next
      case (Inr similar)
      show ?thesis
      proof (cases similar)
        case False
        then have "scanListings env cfg d (c # cs) s = scanListings env cfg d cs s" for s
          using guard Inr by simp
        then show ?thesis using Cons.IH by simp
      next
        case True
        then have scan: "scanListings env cfg d (c # cs) s = perform env ?alert s" for s
          using guard Inr by simp
        show ?thesis
        proof (cases "throws env ?alert")
          case None
          then have "scanListings env cfg d (c # cs) s = (Inr (), replay [?alert] s)" for s
            by (simp only: scan perform_replay option.case)
          then show ?thesis by (intro exI [of _ "Inr ()"] exI [of _ "[?alert]"]) simp
        next
          case (Some e)
          then have "scanListings env cfg d (c # cs) s = (Inl e, replay [] s)" for s
            by (simp only: scan perform_replay option.case replay.simps)
          then show ?thesis by (intro exI [of _ "Inl e"] exI [of _ "[]"]) simp
        qed
      qed
    qed
  qed
qed

lemma scanListings_first_match:
  assumes "truthy (getProp d ''title'')"
    and "\<forall>x \<in> set pre. comparable x \<longrightarrow> similarTo env cfg d x = Inr False"
    and "comparable c" and "similarTo env cfg d c = Inr True"
    and "throws env (ShowRestockAlert d (similarListingInfo env d c)) = None"
  shows "scanListings env cfg d (pre @ c # post) s =
           (Inr (), replay [ShowRestockAlert d (similarListingInfo env d c)] s)"
  using assms(2)
proof (induction pre)
  case Nil
  show ?case
    using assms(1,3,4,5)
    by (simp add: comparable_def similarTo_def perform_replay del: replay.simps)
next
  case (Cons x pre)
  then have rest: "scanListings env cfg d (pre @ c # post) s =
           (Inr (), replay [ShowRestockAlert d (similarListingInfo env d c)] s)"
    by simp
  have "comparable x \<longrightarrow> similarTo env cfg d x = Inr False" using Cons.prems by simp
  then have "scanListings env cfg d (x # pre @ c # post) s
             = scanListings env cfg d (pre @ c # post) s"
    using assms(1) by (auto simp: comparable_def similarTo_def)
  then show ?case using rest by simp
qed

text \<open>The \<^verbatim>\<open>try\<close> block of the restock loop does the same from every state.\<close>

lemma restockTry_shape:
  "\<exists>r evs. (\<forall>s. restockTry env cfg d s = (r, replay evs s))
           \<and> list_all (restockEvent d) evs"
proof -
  let ?u = "getProp d ''url''"
  let ?ep = "getProp cfg ''restockApiEndpoint''"
  let ?p = "if truthy ?u then [Fetch ?u] else []"
  let ?alert = "ShowRestockAlert d (originalUrlInfo env d)"
  let ?upd = "UpdateDealStatus (getProp d ''id'') ''watching''"
  have probe: "(if truthy ?u then checkDealPageActive env ?u s else (False, s))
      = (probeActive env ?u, replay ?p s)" for s
    by (simp add: checkDealPageActive_eq probeActive_def)
  show ?thesis
  proof (cases "probeActive env ?u")
    case True
    then have body: "restockTry env cfg d s =
        (case perform env ?alert (replay ?p s) of
           (Inl e, s2) \<Rightarrow> (Inl e, s2)
         | (Inr u, s2) \<Rightarrow> perform env ?upd s2)" for s
      unfolding restockTry_def probe by simp
    show ?thesis
    proof (cases "throws env ?alert")
      case (Some e)
      then have "restockTry env cfg d s = (Inl e, replay ?p s)" for s
        unfolding body perform_replay by simp
      then show ?thesis by (intro exI [of _ "Inl e"] exI [of _ ?p]) simp
    next
      case alerted: None
      show ?thesis
      proof (cases "throws env ?upd")
        case (Some e)
        then have "restockTry env cfg d s = (Inl e, replay (?p @ [?alert]) s)" for s
          unfolding body perform_replay replay_append using alerted by simp
        then show ?thesis by (intro exI [of _ "Inl e"] exI [of _ "?p @ [?alert]"]) simp
      next
        case None
        then have "restockTry env cfg d s = (Inr (), replay (?p @ [?alert, ?upd]) s)" for s
          unfolding body perform_replay replay_append using alerted
          by (simp add: replay_pair del: replay.simps)
        then show ?thesis
          by (intro exI [of _ "Inr ()"] exI [of _ "?p @ [?alert, ?upd]"]) simp
      qed
    qed
  next
    case inactive: False
    let ?f = "if truthy ?ep then [Fetch ?ep] else []"
    show ?thesis
    proof (cases "listingNotIterable env ?ep")
      case True
      then have "restockTry env cfg d s = (Inl TypeError, replay (?p @ ?f) s)" for s
        unfolding restockTry_def probe fetchCurrent_eq replay_append using inactive by simp
      then show ?thesis by (intro exI [of _ "Inl TypeError"] exI [of _ "?p @ ?f"]) simp
    next
      case False
      then have body: "restockTry env cfg d s =
          (if length (currentListings env ?ep) > 0
           then scanListings env cfg d (currentListings env ?ep) (replay (?p @ ?f) s)
           else (Inr (), replay (?p @ ?f) s))" for s
        unfolding restockTry_def probe fetchCurrent_eq replay_append using inactive by simp
      obtain r evs where scan:
        "\<And>s. scanListings env cfg d (currentListings env ?ep) s = (r, replay evs s)"
        "list_all (restockEvent d) evs"
        using scanListings_shape by blast
      show ?thesis
      proof (cases "length (currentListings env ?ep) > 0")
        case False
        then have "restockTry env cfg d s = (Inr (), replay (?p @ ?f) s)" for s
          unfolding body by simp
        then show ?thesis by (intro exI [of _ "Inr ()"] exI [of _ "?p @ ?f"]) simp
      next
        case True
        then have "restockTry env cfg d s = (r, replay ((?p @ ?f) @ evs) s)" for s
          unfolding body scan(1) by (simp only: if_True replay_append)
        then show ?thesis
          using scan(2) by (intro exI [of _ r] exI [of _ "(?p @ ?f) @ evs"]) simp
      qed
    qed
  qed
qed

text \<open>
  An iteration on a record never throws, and what it does is the same from every state:
  it performs the effects the record has on its own.
\<close>

lemma restockStep_shape:
  "\<exists>evs. (\<forall>s. restockStep env cfg (Some d) s = (Inr (), replay evs s))
         \<and> list_all (restockEvent d) evs"
proof -
  obtain r evs where body: "\<And>s. restockTry env cfg d s = (r, replay evs s)"
    and events: "list_all (restockEvent d) evs"
    using restockTry_shape by blast
  show ?thesis
  proof (cases r)
    case (Inl e)
    then have "restockStep env cfg (Some d) s = (Inr (), replay (evs @ [ConsoleError d e]) s)"
      for s
      by (simp add: restockStep_def body consoleError_replay replay_append del: replay.simps)
    then show ?thesis using events by (intro exI [of _ "evs @ [ConsoleError d e]"]) simp
  next
    case (Inr u)
    then have "restockStep env cfg (Some d) s = (Inr (), replay evs s)" for s
      by (simp add: restockStep_def body)
    then show ?thesis using events by (intro exI [of _ evs]) simp
  qed
qed

lemma restockStep_uniform:
  "restockStep env cfg (Some d) s = (Inr (), replay (restockEffects env cfg d) s)"
proof -
  obtain evs where "\<And>s. restockStep env cfg (Some d) s = (Inr (), replay evs s)"
    using restockStep_shape by blast
  then show ?thesis by (simp add: restockEffects_def trace_replay blank_def)
qed

lemma restockEffects_events: "list_all (restockEvent d) (restockEffects env cfg d)"
proof -
  obtain evs where "\<And>s. restockStep env cfg (Some d) s = (Inr (), replay evs s)"
    and "list_all (restockEvent d) evs"
    using restockStep_shape by blast
  then show ?thesis by (simp add: restockEffects_def trace_replay blank_def)
qed

lemma restockLoop_append:
  "restockLoop env cfg (xs @ ys) s =
     (case restockLoop env cfg xs s of
        (Inl e, s1) \<Rightarrow> (Inl e, s1)
      | (Inr u, s1) \<Rightarrow> restockLoop env cfg ys s1)"
  by (induction xs arbitrary: s) (simp_all split: prod.splits sum.splits)

lemma restockLoop_uniform:
  "restockLoop env cfg (map Some zs) s
     = (Inr (), replay (concat (map (restockEffects env cfg) zs)) s)"
  by (induction zs arbitrary: s) (simp_all add: restockStep_uniform replay_append)

lemma restockLoop_through:
  assumes "restockLoop env cfg (map Some xs) s = (Inr (), s1)"
    and "restockStep env cfg (Some d) s1 = (Inr (), s2)"
  shows "restockLoop env cfg (map Some (xs @ d # ys)) s = restockLoop env cfg (map Some ys) s2"
  using assms by (simp add: restockLoop_append)

lemma restockLoop_replay:
  "\<exists>evs. restockLoop env cfg (map Some zs) s = (Inr (), replay evs s)
         \<and> (\<forall>ev \<in> set evs. \<exists>z \<in> set zs. restockEvent z ev)"
proof -
  have "\<forall>ev \<in> set (concat (map (restockEffects env cfg) zs)). \<exists>z \<in> set zs. restockEvent z ev"
    using restockEffects_events [of _ env cfg] by (auto simp: list_all_iff)
  thus ?thesis using restockLoop_uniform by blast
qed

lemma restockEvent_leaves:
  "restockEvent z ev \<Longrightarrow> getProp z ''id'' \<noteq> j \<Longrightarrow> leavesDeal j ev"
  by (cases ev) auto

lemma restockEvent_other: "restockEvent z ev \<Longrightarrow> z \<noteq> d \<Longrightarrow> \<not> alertFor d ev"
  by (cases ev) auto

lemma active_step:
  assumes "probeActive env (getProp d ''url'')"
    and "throws env (ShowRestockAlert d (originalUrlInfo env d)) = None"
    and "throws env (UpdateDealStatus (getProp d ''id'') ''watching'') = None"
  shows "restockStep env cfg (Some d) s =
           (Inr (), replay [Fetch (getProp d ''url''), ShowRestockAlert d (originalUrlInfo env d),
                            UpdateDealStatus (getProp d ''id'') ''watching''] s)"
proof -
  have u: "truthy (getProp d ''url'')" using assms(1) by (simp add: probeActive_def)
  show ?thesis
    unfolding restockStep_def restockTry_def checkDealPageActive_eq perform_replay
    using assms u by (simp add: replay_pair del: replay.simps)
qed

lemma similar_step:
  assumes "\<not> probeActive env (getProp d ''url'')"
    and "currentListings env (getProp cfg ''restockApiEndpoint'') = pre @ c # post"
    and "truthy (getProp d ''title'')"
    and "\<forall>x \<in> set pre. comparable x \<longrightarrow> similarTo env cfg d x = Inr False"
    and "comparable c" and "similarTo env cfg d c = Inr True"
    and "throws env (ShowRestockAlert d (similarListingInfo env d c)) = None"
  shows "restockStep env cfg (Some d) s =
           (Inr (),
            replay ((if truthy (getProp d ''url'') then [Fetch (getProp d ''url'')] else [])
                    @ [Fetch (getProp cfg ''restockApiEndpoint''),
                       ShowRestockAlert d (similarListingInfo env d c)]) s)"
proof -
  let ?u = "getProp d ''url''"
  let ?ep = "getProp cfg ''restockApiEndpoint''"
  let ?p = "if truthy ?u then [Fetch ?u] else []"
  have ep: "truthy ?ep" using assms(2) by (auto simp: currentListings_def split: if_splits)
  have probe: "(if truthy ?u then checkDealPageActive env ?u s else (False, s))
      = (False, replay ?p s)"
    using assms(1) by (simp add: checkDealPageActive_eq probeActive_def)
  have iterable: "\<not> listingNotIterable env ?ep"
    using assms(2) by (intro listed_iterable) simp
  have "restockTry env cfg d s = scanListings env cfg d (pre @ c # post) (replay (?p @ [Fetch ?ep]) s)"
    unfolding restockTry_def probe fetchCurrent_eq replay_append
    using ep assms(2) iterable by simp
  also have "\<dots> = (Inr (), replay [ShowRestockAlert d (similarListingInfo env d c)]
                              (replay (?p @ [Fetch ?ep]) s))"
    by (rule scanListings_first_match [OF assms(3-7)])
  finally show ?thesis
    by (simp add: restockStep_def replay_append [symmetric] del: replay.simps)
qed

lemma filter_none: "\<forall>x \<in> set xs. \<not> P x \<Longrightarrow> filter P xs = []"
  by (simp add: filter_empty_conv)

text \<open>
  C2: for a deal the run fetched as \<^verbatim>\<open>missed\<close>, with a source URL whose probe reports
  active, one run of \<^verbatim>\<open>performRestockChecks\<close> raises exactly one restock alert for the
  deal, tagged \<^verbatim>\<open>original_url_active\<close>, and the record stored under its id ends the run
  with status \<^verbatim>\<open>watching\<close>; the iteration for the deal performs the probe, the alert and
  the status update and nothing else, so no listing is fetched or compared for it. Ids
  are unique in the store, and the notifier and storage complete the calls.
\<close>

theorem active_original_url_restocks:
  assumes "throws env (GetDealsByStatus ''missed'') = None"
    and "d \<in> set (getDealsByStatus ''missed'' (store s))"
    and "truthy (getProp d ''url'')"
    and "probeActive env (getProp d ''url'')"
    and "throws env (ShowRestockAlert d (originalUrlInfo env d)) = None"
    and "throws env (UpdateDealStatus (getProp d ''id'') ''watching'') = None"
    and "distinct (map (\<lambda>r. getProp r ''id'') (store s))"
  shows "fst (performRestockChecks env s) = Inr ()
    \<and> filter (alertFor d) (drop (length (trace s)) (trace (snd (performRestockChecks env s))))
        = [ShowRestockAlert d (originalUrlInfo env d)]
    \<and> getProp (originalUrlInfo env d) ''restockType'' = Str ''original_url_active''
    \<and> filter (\<lambda>r. getProp r ''id'' = getProp d ''id'') (store (snd (performRestockChecks env s)))
        = [setProp d ''status'' (Str ''watching'')]
    \<and> restockStep env (currentConfig s) (Some d) s0
        = (Inr (), replay [Fetch (getProp d ''url''), ShowRestockAlert d (originalUrlInfo env d),
                           UpdateDealStatus (getProp d ''id'') ''watching''] s0)"
proof -
  define cfg where "cfg = currentConfig s"
  define j where "j = getProp d ''id''"
  define mine where "mine = [Fetch (getProp d ''url''), ShowRestockAlert d (originalUrlInfo env d),
                  UpdateDealStatus j ''watching'']"
  obtain xs ys where split: "getDealsByStatus ''missed'' (store s) = xs @ d # ys"
    using assms(2) by (auto dest: split_list)
  have run: "performRestockChecks env s = restockLoop env cfg (map Some (xs @ d # ys)) s"
    by (simp add: performRestockChecks_def assms(1) split cfg_def)
  have others: "\<forall>z \<in> set xs \<union> set ys. z \<noteq> d \<and> getProp z ''id'' \<noteq> j"
    unfolding j_def
    by (rule neighbours_differ [OF assms(7) split [unfolded getDealsByStatus_def]])
  have step: "restockStep env cfg (Some d) t = (Inr (), replay mine t)" for t
    unfolding mine_def j_def by (rule active_step [OF assms(4-6)])
  obtain e1 where e1: "restockLoop env cfg (map Some xs) s = (Inr (), replay e1 s)"
    "\<forall>ev \<in> set e1. \<exists>z \<in> set xs. restockEvent z ev"
    using restockLoop_replay by blast
  obtain e3 where e3: "restockLoop env cfg (map Some ys) (replay mine (replay e1 s))
      = (Inr (), replay e3 (replay mine (replay e1 s)))"
    "\<forall>ev \<in> set e3. \<exists>z \<in> set ys. restockEvent z ev"
    using restockLoop_replay by blast
  have final: "restockLoop env cfg (map Some (xs @ d # ys)) s
        = (Inr (), replay (e1 @ mine @ e3) s)"
    using restockLoop_through [OF e1(1) step] e3(1) by (simp only: replay_append)
  have leaves1: "list_all (leavesDeal j) e1"
    unfolding list_all_iff using e1(2) others by (meson UnI1 restockEvent_leaves)
  have leaves3: "list_all (leavesDeal j) e3"
    unfolding list_all_iff using e3(2) others by (meson UnI2 restockEvent_leaves)
  have quiet1: "filter (alertFor d) e1 = []"
    using e1(2) others by (intro filter_none) (meson UnI1 restockEvent_other)
  have quiet3: "filter (alertFor d) e3 = []"
    using e3(2) others by (intro filter_none) (meson UnI2 restockEvent_other)
  have alerts: "filter (alertFor d) (e1 @ mine @ e3) = [ShowRestockAlert d (originalUrlInfo env d)]"
    by (simp add: quiet1 quiet3 mine_def)
  have stored: "d \<in> set (store s)" using assms(2) by (simp add: getDealsByStatus_def)
  have "filter (\<lambda>r. getProp r ''id'' = j) (store (replay e1 s)) = [d]"
    using replay_leaves_deal [OF leaves1, of s] filter_unique [OF assms(7) stored]
    by (simp add: j_def)
  then have "filter (\<lambda>r. getProp r ''id'' = j) (store (replay mine (replay e1 s)))
      = [setProp d ''status'' (Str ''watching'')]"
    by (simp add: mine_def own_updateDealStatus)
  then have kept: "filter (\<lambda>r. getProp r ''id'' = j) (store (replay (e1 @ mine @ e3) s))
      = [setProp d ''status'' (Str ''watching'')]"
    using replay_leaves_deal [OF leaves3, of "replay mine (replay e1 s)"]
    by (simp only: replay_append)
  have tag: "getProp (originalUrlInfo env d) ''restockType'' = Str ''original_url_active''"
    by (simp add: originalUrlInfo_def getProp_setProp)
  have r1: "fst (performRestockChecks env s) = Inr ()"
    by (simp only: run final fst_conv)
  have r2: "snd (performRestockChecks env s) = replay (e1 @ mine @ e3) s"
    by (simp only: run final snd_conv)
  show ?thesis
    unfolding r2 using r1 alerts kept tag step [of s0]
    unfolding j_def cfg_def mine_def by (simp add: emitted_replay del: replay.simps)
qed


text \<open>
  C3: for a deal the run fetched as \<^verbatim>\<open>missed\<close>, with a title, whose original-URL probe is
  not active, if the fetched listing has a comparable candidate similar to the deal's
  title, \<open>c\<close> being the first such (the candidates before it are not comparable or
  compare as not similar), one run of \<^verbatim>\<open>performRestockChecks\<close> raises exactly one restock
  alert for the deal, built from \<open>c\<close> and tagged \<^verbatim>\<open>similar_new_listing\<close>, and the record
  stored under the deal's id is unchanged, status \<^verbatim>\<open>missed\<close>. Ids are unique in the store
  and the notifier completes the call.
\<close>

theorem similar_listing_notified:
  assumes "throws env (GetDealsByStatus ''missed'') = None"
    and "d \<in> set (getDealsByStatus ''missed'' (store s))"
    and "\<not> probeActive env (getProp d ''url'')"
    and "currentListings env (getProp (currentConfig s) ''restockApiEndpoint'') = pre @ c # post"
    and "truthy (getProp d ''title'')"
    and "\<forall>x \<in> set pre. comparable x \<longrightarrow> similarTo env (currentConfig s) d x = Inr False"
    and "comparable c" and "similarTo env (currentConfig s) d c = Inr True"
    and "throws env (ShowRestockAlert d (similarListingInfo env d c)) = None"
    and "distinct (map (\<lambda>r. getProp r ''id'') (store s))"
  shows "fst (performRestockChecks env s) = Inr ()
    \<and> filter (alertFor d) (drop (length (trace s)) (trace (snd (performRestockChecks env s))))
        = [ShowRestockAlert d (similarListingInfo env d c)]
    \<and> getProp (similarListingInfo env d c) ''restockType'' = Str ''similar_new_listing''
    \<and> filter (\<lambda>r. getProp r ''id'' = getProp d ''id'') (store (snd (performRestockChecks env s)))
        = [d]
    \<and> getProp d ''status'' = Str ''missed''"
proof -
  define cfg where "cfg = currentConfig s"
  define j where "j = getProp d ''id''"
  define mine where "mine = (if truthy (getProp d ''url'') then [Fetch (getProp d ''url'')] else [])
      @ [Fetch (getProp cfg ''restockApiEndpoint''),
         ShowRestockAlert d (similarListingInfo env d c)]"
  obtain xs ys where split: "getDealsByStatus ''missed'' (store s) = xs @ d # ys"
    using assms(2) by (auto dest: split_list)
  have run: "performRestockChecks env s = restockLoop env cfg (map Some (xs @ d # ys)) s"
    by (simp add: performRestockChecks_def assms(1) split cfg_def)
  have others: "\<forall>z \<in> set xs \<union> set ys. z \<noteq> d \<and> getProp z ''id'' \<noteq> j"
    unfolding j_def
    by (rule neighbours_differ [OF assms(10) split [unfolded getDealsByStatus_def]])
  have step: "restockStep env cfg (Some d) t = (Inr (), replay mine t)" for t
    unfolding mine_def
    by (rule similar_step [OF assms(3) assms(4-9) [folded cfg_def]])
  obtain e1 where e1: "restockLoop env cfg (map Some xs) s = (Inr (), replay e1 s)"
    "\<forall>ev \<in> set e1. \<exists>z \<in> set xs. restockEvent z ev"
    using restockLoop_replay by blast
  obtain e3 where e3: "restockLoop env cfg (map Some ys) (replay mine (replay e1 s))
      = (Inr (), replay e3 (replay mine (replay e1 s)))"
    "\<forall>ev \<in> set e3. \<exists>z \<in> set ys. restockEvent z ev"
    using restockLoop_replay by blast
  have final: "restockLoop env cfg (map Some (xs @ d # ys)) s
        = (Inr (), replay (e1 @ mine @ e3) s)"
    using restockLoop_through [OF e1(1) step] e3(1) by (simp only: replay_append)
  have leaves1: "list_all (leavesDeal j) e1"
    unfolding list_all_iff using e1(2) others by (meson UnI1 restockEvent_leaves)
  have leaves3: "list_all (leavesDeal j) e3"
    unfolding list_all_iff using e3(2) others by (meson UnI2 restockEvent_leaves)
  have leaves: "list_all (leavesDeal j) (e1 @ mine @ e3)"
    using leaves1 leaves3 by (simp add: mine_def)
  have quiet1: "filter (alertFor d) e1 = []"
    using e1(2) others by (intro filter_none) (meson UnI1 restockEvent_other)
  have quiet3: "filter (alertFor d) e3 = []"
    using e3(2) others by (intro filter_none) (meson UnI2 restockEvent_other)
  have alerts: "filter (alertFor d) (e1 @ mine @ e3)
      = [ShowRestockAlert d (similarListingInfo env d c)]"
    by (simp add: quiet1 quiet3 mine_def)
  have stored: "d \<in> set (store s)" and missed: "getProp d ''status'' = Str ''missed''"
    using assms(2) by (simp_all add: getDealsByStatus_def)
  have kept: "filter (\<lambda>r. getProp r ''id'' = j) (store (replay (e1 @ mine @ e3) s)) = [d]"
    using replay_leaves_deal [OF leaves, of s] filter_unique [OF assms(10) stored]
    by (simp add: j_def del: replay.simps)
  have tag: "getProp (similarListingInfo env d c) ''restockType'' = Str ''similar_new_listing''"
    by (simp add: similarListingInfo_def getProp_setProp)
  have r1: "fst (performRestockChecks env s) = Inr ()"
    by (simp only: run final fst_conv)
  have r2: "snd (performRestockChecks env s) = replay (e1 @ mine @ e3) s"
    by (simp only: run final snd_conv)
  show ?thesis
    unfolding r2 emitted_replay using r1 alerts kept tag missed unfolding j_def by simp
qed

lemmas fixture_defs =
  quietEnv_def initialState_def restockEnv_def missedState_def restockFetch_def
  missedActive_def missedGone_def listingNoUrl_def listingOther_def listingMatch_def
  listingLater_def DEFAULT_APP_CONFIG_def






lemma fixture_titles:
  "toLowerCase latin1 (lit ''SuperTool'') = lit ''supertool''"
  "toLowerCase latin1 (lit ''Unrelated Deal'') = lit ''unrelated deal''"
  "toLowerCase latin1 (lit ''SuperTool Pro Max'') = lit ''supertool pro max''"
  "toLowerCase latin1 (lit ''supertool'') = lit ''supertool''"
  "\<not> includesStr (lit ''supertool'') (lit ''unrelated deal'')"
  "\<not> includesStr (lit ''unrelated deal'') (lit ''supertool'')"
  "includesStr (lit ''supertool pro max'') (lit ''supertool'')"
  by (simp_all add: lit_Cons toLowerCase_def lowerOf_def capitalSigma_def)

theorem active_original_url_restocks_witness:
  "missedActive \<in> set (getDealsByStatus ''missed'' (store missedState))
   \<and> probeActive restockEnv (getProp missedActive ''url'')
   \<and> filter (alertFor missedActive)
        (drop (length (trace missedState)) (trace (snd (performRestockChecks restockEnv missedState))))
        = [ShowRestockAlert missedActive (originalUrlInfo restockEnv missedActive)]
   \<and> filter (\<lambda>r. getProp r ''id'' = getProp missedActive ''id'')
        (store (snd (performRestockChecks restockEnv missedState)))
        = [setProp missedActive ''status'' (Str ''watching'')]"
proof -
  have h1: "throws restockEnv (GetDealsByStatus ''missed'') = None"
    by (simp add: fixture_defs)
  have h2: "missedActive \<in> set (getDealsByStatus ''missed'' (store missedState))"
    by (simp add: getDealsByStatus_def getProp_def fixture_defs)
  have h3: "truthy (getProp missedActive ''url'')"
    by (simp add: getProp_def fixture_defs)
  have h4: "probeActive restockEnv (getProp missedActive ''url'')"
    by (simp add: probeActive_def getProp_def fixture_defs)
  have h5: "throws restockEnv (ShowRestockAlert missedActive
              (originalUrlInfo restockEnv missedActive)) = None"
    by (simp add: restockEnv_def quietEnv_def)
  have h6: "throws restockEnv (UpdateDealStatus (getProp missedActive ''id'') ''watching'') = None"
    by (simp add: restockEnv_def quietEnv_def)
  have h7: "distinct (map (\<lambda>r. getProp r ''id'') (store missedState))"
    by (simp add: getProp_def fixture_defs)
  show ?thesis
    using active_original_url_restocks [OF h1 h2 h3 h4 h5 h6 h7] h2 h4 by simp
qed

theorem similar_listing_notified_witness:
  "missedGone \<in> set (getDealsByStatus ''missed'' (store missedState))
   \<and> \<not> probeActive restockEnv (getProp missedGone ''url'')
   \<and> currentListings restockEnv (getProp (currentConfig missedState) ''restockApiEndpoint'')
        = [listingNoUrl, listingOther] @ listingMatch # [listingLater]
   \<and> similarTo restockEnv (currentConfig missedState) missedGone listingMatch = Inr True
   \<and> filter (alertFor missedGone)
        (drop (length (trace missedState)) (trace (snd (performRestockChecks restockEnv missedState))))
        = [ShowRestockAlert missedGone (similarListingInfo restockEnv missedGone listingMatch)]
   \<and> filter (\<lambda>r. getProp r ''id'' = getProp missedGone ''id'')
        (store (snd (performRestockChecks restockEnv missedState))) = [missedGone]"
proof -
  have h1: "throws restockEnv (GetDealsByStatus ''missed'') = None"
    by (simp add: fixture_defs)
  have h2: "missedGone \<in> set (getDealsByStatus ''missed'' (store missedState))"
    by (simp add: getDealsByStatus_def getProp_def fixture_defs)
  have h3: "\<not> probeActive restockEnv (getProp missedGone ''url'')"
    by (simp add: probeActive_def getProp_def fixture_defs)
  have h4: "currentListings restockEnv (getProp (currentConfig missedState) ''restockApiEndpoint'')
        = [listingNoUrl, listingOther] @ listingMatch # [listingLater]"
    by (simp add: currentListings_def getProp_def quietEnv_def initialState_def restockEnv_def
        missedState_def restockFetch_def DEFAULT_APP_CONFIG_def)
  have h5: "truthy (getProp missedGone ''title'')"
    by (simp add: getProp_def fixture_defs)
  note lower = fixture_titles
  have h6: "\<forall>x \<in> set [listingNoUrl, listingOther].
      comparable x \<longrightarrow> similarTo restockEnv (currentConfig missedState) missedGone x = Inr False"
    by (simp add: comparable_def similarTo_def isSimilar_def getProp_def Str_def lower
        fixture_defs)
  have h7: "comparable listingMatch"
    by (simp add: comparable_def getProp_def fixture_defs)
  have h8: "similarTo restockEnv (currentConfig missedState) missedGone listingMatch = Inr True"
    by (simp add: similarTo_def isSimilar_def getProp_def Str_def lower fixture_defs)
  have h9: "throws restockEnv (ShowRestockAlert missedGone
              (similarListingInfo restockEnv missedGone listingMatch)) = None"
    by (simp add: restockEnv_def quietEnv_def)
  have h10: "distinct (map (\<lambda>r. getProp r ''id'') (store missedState))"
    by (simp add: getProp_def fixture_defs)
  show ?thesis
    using similar_listing_notified [OF h1 h2 h3 h4 h5 h6 h7 h8 h9 h10] h2 h3 h4 h8 by simp
qed




section \<open>The status enum\<close>

lemma effect_enum_kept:
  assumes "writesEnumStatus ev" and "list_all statusInEnum (store s)"
  shows "list_all statusInEnum (store (effect ev s))"
proof (cases ev)
  case (AddDeal r)
  then show ?thesis using assms by (simp add: addDeal_def statusInEnum_def)
next
  case (UpdateDealStatus i st)
  then have "st = ''watching'' \<or> st = ''missed''" using assms(1) by simp
  then show ?thesis
    using assms(2) by (auto simp: UpdateDealStatus updateDealStatus_def list_all_iff statusInEnum_def)
next
  case (UpdateDeal i p)
  then have "''status'' \<notin> set (objectKeys p)" using assms(1) by simp
  then have "statusInEnum (spread r p) = statusInEnum r" for r
    by (simp add: statusInEnum_def getProp_spread_other)
  then show ?thesis
    using assms(2) by (auto simp: UpdateDeal updateDeal_def list_all_iff)
next
  case (DeleteDeal i)
  then show ?thesis using assms(2) by (auto simp: deleteDeal_def list_all_iff)
qed (use assms(2) in simp_all)

lemma replay_enum_kept:
  "list_all writesEnumStatus evs \<Longrightarrow> list_all statusInEnum (store s)
   \<Longrightarrow> list_all statusInEnum (store (replay evs s))"
proof (induction evs arbitrary: s)
  case Nil
  then show ?case by simp
next
  case (Cons ev evs)
  have "list_all statusInEnum (store (effect ev s))"
    using Cons.prems by (intro effect_enum_kept) simp_all
  then show ?case
    using Cons.IH [of "(effect ev s)\<lparr>trace := trace (effect ev s) @ [ev]\<rparr>"] Cons.prems by simp
qed

lemma expiryEvent_enum: "expiryEvent z ev \<Longrightarrow> writesEnumStatus ev"
  by (cases ev) simp_all

lemma restockEvent_enum: "restockEvent z ev \<Longrightarrow> writesEnumStatus ev"
  by (cases ev) simp_all

lemma enum_shape:
  "x = replay evs s \<Longrightarrow> list_all writesEnumStatus evs
   \<Longrightarrow> \<exists>evs. x = replay evs s \<and> list_all writesEnumStatus evs"
  by blast

lemma handleSaveDeal_replay:
  "\<exists>evs. snd (handleSaveDeal env savedDate dealData s) = replay evs s
         \<and> list_all writesEnumStatus evs"
proof (cases dealData)
  case None
  then have "snd (handleSaveDeal env savedDate dealData s) = replay [] s"
    by (simp add: handleSaveDeal_def)
  then show ?thesis by (rule enum_shape) simp
next
  case (Some dd)
  let ?d = "setProp (setProp dd ''dateSaved'' (Str savedDate)) ''status'' (Str ''watching'')"
  let ?add = "AddDeal ?d"
  let ?shown = "ShowSaveConfirmation (getProp ?d ''title'')"
  have "snd (handleSaveDeal env savedDate dealData s) = replay [] s
      \<or> snd (handleSaveDeal env savedDate dealData s) = replay [?add] s
      \<or> snd (handleSaveDeal env savedDate dealData s) = replay [?add, ?shown] s"
    by (simp add: handleSaveDeal_def Some Let_def perform_replay replay_pair
        split: option.splits del: replay.simps(2))
  then show ?thesis by (elim disjE) (erule enum_shape, simp)+
qed

lemma handleMarkAsMissed_replay:
  "\<exists>evs. snd (handleMarkAsMissed env dealId s) = replay evs s \<and> list_all writesEnumStatus evs"
proof -
  have "snd (handleMarkAsMissed env dealId s) = replay [] s
      \<or> snd (handleMarkAsMissed env dealId s) = replay [UpdateDealStatus dealId ''missed''] s"
    by (simp add: handleMarkAsMissed_def perform_replay split: option.splits
        del: replay.simps(2))
  then show ?thesis by (elim disjE) (erule enum_shape, simp)+
qed

lemma handleDeleteDeal_replay:
  "\<exists>evs. snd (handleDeleteDeal env dealId s) = replay evs s \<and> list_all writesEnumStatus evs"
proof -
  have "snd (handleDeleteDeal env dealId s) = replay [] s
      \<or> snd (handleDeleteDeal env dealId s) = replay [DeleteDeal dealId] s"
    by (simp add: handleDeleteDeal_def perform_replay split: option.splits del: replay.simps(2))
  then show ?thesis by (elim disjE) (erule enum_shape, simp)+
qed

lemma handleUpdateDealNotes_replay:
  "\<exists>evs. snd (handleUpdateDealNotes env dealId n s) = replay evs s
         \<and> list_all writesEnumStatus evs"
proof -
  have "snd (handleUpdateDealNotes env dealId n s) = replay [] s
      \<or> snd (handleUpdateDealNotes env dealId n s) = replay [UpdateDeal dealId [(''notes'', n)]] s"
    by (simp add: handleUpdateDealNotes_def perform_replay split: option.splits jsval.splits
        del: replay.simps(2))
  then show ?thesis by (elim disjE) (erule enum_shape, simp add: objectKeys_def)+
qed

lemma performExpiryChecks_replay:
  "\<exists>evs. snd (performExpiryChecks env now s) = replay evs s \<and> list_all writesEnumStatus evs"
proof (cases "throws env (GetDealsByStatus ''watching'')")
  case (Some e)
  then have "snd (performExpiryChecks env now s) = replay [] s"
    by (simp add: performExpiryChecks_def)
  then show ?thesis by (intro exI [of _ "[]"]) simp
next
  case None
  obtain evs where evs: "expiryLoop env (leadTimeInMs env (currentConfig s)) now
      (map Some (getDealsByStatus ''watching'' (store s))) s = (Inr (), replay evs s)"
    "\<forall>ev \<in> set evs. \<exists>z \<in> set (getDealsByStatus ''watching'' (store s)). expiryEvent z ev"
    using expiryLoop_replay by blast
  have "list_all writesEnumStatus evs"
    unfolding list_all_iff using evs(2) expiryEvent_enum by blast
  moreover have "snd (performExpiryChecks env now s) = replay evs s"
    by (simp add: performExpiryChecks_def None evs(1))
  ultimately show ?thesis by blast
qed

lemma performRestockChecks_replay:
  "\<exists>evs. snd (performRestockChecks env s) = replay evs s \<and> list_all writesEnumStatus evs"
proof (cases "throws env (GetDealsByStatus ''missed'')")
  case (Some e)
  then have "snd (performRestockChecks env s) = replay [] s"
    by (simp add: performRestockChecks_def)
  then show ?thesis by (intro exI [of _ "[]"]) simp
next
  case None
  obtain evs where evs: "restockLoop env (currentConfig s)
      (map Some (getDealsByStatus ''missed'' (store s))) s = (Inr (), replay evs s)"
    "\<forall>ev \<in> set evs. \<exists>z \<in> set (getDealsByStatus ''missed'' (store s)). restockEvent z ev"
    using restockLoop_replay by blast
  have "list_all writesEnumStatus evs"
    unfolding list_all_iff using evs(2) restockEvent_enum by blast
  moreover have "snd (performRestockChecks env s) = replay evs s"
    by (simp add: performRestockChecks_def None evs(1))
  ultimately show ?thesis by blast
qed

text \<open>
  C9: whichever operation of the core that writes to storage runs (\<^verbatim>\<open>handleSaveDeal\<close>,
  \<^verbatim>\<open>handleMarkAsMissed\<close>, \<^verbatim>\<open>handleDeleteDeal\<close>, \<^verbatim>\<open>handleUpdateDealNotes\<close>,
  \<^verbatim>\<open>performExpiryChecks\<close>, \<^verbatim>\<open>performRestockChecks\<close>), every call it completes writes an
  enum status or none (\<^verbatim>\<open>addDeal\<close> only with \<^verbatim>\<open>watching\<close>, \<^verbatim>\<open>updateDealStatus\<close> only with
  \<^verbatim>\<open>watching\<close> or \<^verbatim>\<open>missed\<close>), and if every stored record had an enum status before, every
  stored record has one after.
\<close>

theorem stored_status_stays_in_enum:
  assumes "s' \<in> {snd (handleSaveDeal env savedDate dealData s),
                 snd (handleMarkAsMissed env dealId s),
                 snd (handleDeleteDeal env dealId s),
                 snd (handleUpdateDealNotes env dealId n s),
                 snd (performExpiryChecks env now s),
                 snd (performRestockChecks env s)}"
  shows "list_all writesEnumStatus (drop (length (trace s)) (trace s'))
    \<and> (list_all statusInEnum (store s) \<longrightarrow> list_all statusInEnum (store s'))"
proof -
  obtain evs where "s' = replay evs s" and "list_all writesEnumStatus evs"
    using assms handleSaveDeal_replay [of env savedDate dealData s]
      handleMarkAsMissed_replay [of env dealId s] handleDeleteDeal_replay [of env dealId s]
      handleUpdateDealNotes_replay [of env dealId n s]
      performExpiryChecks_replay [of env now s] performRestockChecks_replay [of env s]
    by auto
  then show ?thesis by (simp add: emitted_replay replay_enum_kept del: replay.simps)
qed


theorem stored_status_stays_in_enum_witness:
  "list_all statusInEnum (store watchState)
   \<and> list_all writesEnumStatus
        (drop (length (trace watchState)) (trace (snd (performExpiryChecks clockEnv noon watchState))))
   \<and> list_all statusInEnum (store (snd (performExpiryChecks clockEnv noon watchState)))
   \<and> list_all writesEnumStatus
        (drop (length (trace watchState))
           (trace (snd (handleSaveDeal clockEnv ''2024-10-21T12:00:00.000Z''
                          (Some suppliedDeal) watchState))))
   \<and> list_all statusInEnum
        (store (snd (handleSaveDeal clockEnv ''2024-10-21T12:00:00.000Z''
                       (Some suppliedDeal) watchState)))"
proof -
  have inv: "list_all statusInEnum (store watchState)"
    by (simp add: statusInEnum_def watchState_def initialState_def expiredDeal_def soonDeal_def
        lapsedDeal_def getProp_def)
  have m1: "snd (performExpiryChecks clockEnv noon watchState)
      \<in> {snd (handleSaveDeal clockEnv ''2024-10-21T12:00:00.000Z'' (Some suppliedDeal) watchState),
          snd (handleMarkAsMissed clockEnv Undefined watchState),
          snd (handleDeleteDeal clockEnv Undefined watchState),
          snd (handleUpdateDealNotes clockEnv Undefined Undefined watchState),
          snd (performExpiryChecks clockEnv noon watchState),
          snd (performRestockChecks clockEnv watchState)}"
    by simp
  have m2: "snd (handleSaveDeal clockEnv ''2024-10-21T12:00:00.000Z'' (Some suppliedDeal) watchState)
      \<in> {snd (handleSaveDeal clockEnv ''2024-10-21T12:00:00.000Z'' (Some suppliedDeal) watchState),
          snd (handleMarkAsMissed clockEnv Undefined watchState),
          snd (handleDeleteDeal clockEnv Undefined watchState),
          snd (handleUpdateDealNotes clockEnv Undefined Undefined watchState),
          snd (performExpiryChecks clockEnv noon watchState),
          snd (performRestockChecks clockEnv watchState)}"
    by simp
  show ?thesis
    using stored_status_stays_in_enum [OF m1] stored_status_stays_in_enum [OF m2] inv by blast
qed


end
